theory Spec2Isabelle
  imports Main
begin

section \<open>Arrays as the rollout code uses them\<close>

text \<open>
  The part of \<^verbatim>\<open>main\<close> that runs after training (lines 148 to 226 of
  \<^verbatim>\<open>src/main.py\<close>) works on two-dimensional torch tensors and numpy arrays.
  A matrix is its column count together with its list of rows, so that a matrix with
  no rows still has a column count, as a tensor of shape \<open>(0, C)\<close> has.
  Exceptions are values of \<open>error\<close>.
\<close>

datatype error = IndexError | ValueError | RuntimeError | TypeError | ModelError

datatype 'a mat = Mat (ncols: nat) (rows: "'a list list")

definition nrows :: "'a mat \<Rightarrow> nat" where
  "nrows m = length (rows m)"

text \<open>What \<^verbatim>\<open>squeeze()\<close> can return: a scalar, a vector or a matrix.\<close>

datatype 'a ndarray = A0 'a | A1 "'a list" | A2 "'a mat"

text \<open>
  Python slicing never raises: a negative bound counts from the end and every bound is
  clamped to the length.
\<close>

definition py_bound :: "int \<Rightarrow> nat \<Rightarrow> nat" where
  "py_bound i n = (if i < 0 then nat (max 0 (i + int n)) else min (nat i) n)"

definition py_slice :: "'a list \<Rightarrow> int \<Rightarrow> int \<Rightarrow> 'a list" where
  "py_slice xs a b =
     (let s = py_bound a (length xs); e = py_bound b (length xs)
      in take (e - s) (drop s xs))"

text \<open>\<^verbatim>\<open>xs[i]\<close> for a constant index \<open>i \<ge> 0\<close>.\<close>

definition py_get :: "'a list \<Rightarrow> nat \<Rightarrow> error + 'a" where
  "py_get xs i = (if i < length xs then Inr (xs ! i) else Inl IndexError)"

text \<open>\<^verbatim>\<open>m[a:b, :]\<close>, \<^verbatim>\<open>m[a:, :]\<close> and \<^verbatim>\<open>m[:, a:b]\<close>.\<close>

definition rows_slice :: "'a mat \<Rightarrow> int \<Rightarrow> int \<Rightarrow> 'a mat" where
  "rows_slice m a b = Mat (ncols m) (py_slice (rows m) a b)"

definition rows_from :: "'a mat \<Rightarrow> int \<Rightarrow> 'a mat" where
  "rows_from m a = Mat (ncols m) (drop (py_bound a (nrows m)) (rows m))"

definition cols_slice :: "'a mat \<Rightarrow> int \<Rightarrow> int \<Rightarrow> 'a mat" where
  "cols_slice m a b =
     Mat (py_bound b (ncols m) - py_bound a (ncols m)) (map (\<lambda>r. py_slice r a b) (rows m))"

text \<open>\<^verbatim>\<open>.T\<close> of a matrix: row \<open>j\<close> of the result is column \<open>j\<close> of the argument.\<close>

definition transpose_mat :: "'a mat \<Rightarrow> 'a mat" where
  "transpose_mat m = Mat (nrows m) (map (\<lambda>j. map (\<lambda>r. r ! j) (rows m)) [0..<ncols m])"

text \<open>
  \<^verbatim>\<open>squeeze()\<close> without arguments drops every dimension of size 1, and \<^verbatim>\<open>.T\<close>
  of a scalar or a vector is the array itself.
\<close>

definition squeeze :: "'a mat \<Rightarrow> 'a ndarray" where
  "squeeze m =
     (if nrows m = 1 \<and> ncols m = 1 then A0 (hd (hd (rows m)))
      else if nrows m = 1 then A1 (hd (rows m))
      else if ncols m = 1 then A1 (map hd (rows m))
      else A2 m)"

fun transpose_nd :: "'a ndarray \<Rightarrow> 'a ndarray" where
  "transpose_nd (A0 x) = A0 x"
| "transpose_nd (A1 xs) = A1 xs"
| "transpose_nd (A2 m) = A2 (transpose_mat m)"

text \<open>
  \<^verbatim>\<open>np.concatenate([a, b], axis=1)\<close>: both arrays must have two dimensions and the
  same number of rows, or numpy raises ValueError.
\<close>

fun concatenate1 :: "'a ndarray \<Rightarrow> 'a ndarray \<Rightarrow> error + 'a mat" where
  "concatenate1 (A2 a) (A2 b) =
     (if nrows a = nrows b then Inr (Mat (ncols a + ncols b) (map2 (@) (rows a) (rows b)))
      else Inl ValueError)"
| "concatenate1 _ _ = Inl ValueError"

text \<open>
  \<^verbatim>\<open>torch.cat([a, b])\<close> along dimension 0: the column counts must agree, or torch
  raises RuntimeError. The result has the promoted dtype of the two tensors, and torch
  converts the elements of both to it: \<open>cast_a\<close> and \<open>cast_b\<close> are these conversions,
  each the identity for a tensor that already has the promoted dtype.
\<close>

definition cat0 :: "('a \<Rightarrow> 'a) \<Rightarrow> ('a \<Rightarrow> 'a) \<Rightarrow> 'a mat \<Rightarrow> 'a mat \<Rightarrow> error + 'a mat" where
  "cat0 cast_a cast_b a b =
     (if ncols a = ncols b
      then Inr (Mat (ncols a) (map (map cast_a) (rows a) @ map (map cast_b) (rows b)))
      else Inl RuntimeError)"

section \<open>The reconstruction rollout (pair ids 2 and 4)\<close>

text \<open>
  \<^verbatim>\<open>forecast_model\<close> lives in the \<^verbatim>\<open>train\<close> module, outside the source file; it is
  a parameter here: it receives the start window and \<^verbatim>\<open>n_out\<close> and returns a matrix
  or raises. The trained network, the two transforms and the configuration
  (\<^verbatim>\<open>config=args\<close>) that the code passes with every call are part of it.
\<close>

type_synonym 'a model = "'a mat \<Rightarrow> int \<Rightarrow> error + 'a mat"

text \<open>
  The variables of the \<^verbatim>\<open>while\<close> loop of lines 169 to 185, and the log of the model
  calls made so far (start window and \<^verbatim>\<open>n_out\<close> of each call).
\<close>

record 'a rollout =
  output_mat_full :: "'a mat option"
  start_idx :: nat
  calls :: "('a mat \<times> int) list"

definition rollout_init :: "'a rollout" where
  "rollout_init = \<lparr>output_mat_full = None, start_idx = 0, calls = []\<rparr>"

text \<open>Line 169: \<^verbatim>\<open>output_mat_full is None or output_mat_full.shape[1] < output_timesteps\<close>.\<close>

definition loop_cond :: "'a rollout \<Rightarrow> int \<Rightarrow> bool" where
  "loop_cond st output_timesteps =
     (case output_mat_full st of None \<Rightarrow> True | Some full \<Rightarrow> int (ncols full) < output_timesteps)"

text \<open>Lines 170 to 185, one pass through the loop body.\<close>

definition loop_body :: "'a model \<Rightarrow> 'a mat \<Rightarrow> int \<Rightarrow> int \<Rightarrow> 'a rollout \<Rightarrow> error + 'a rollout" where
  "loop_body forecast_model data_mat lag horizon st =
     (let data_mat_tmp = rows_slice data_mat (int (start_idx st) * horizon)
                                             (int (start_idx st) * horizon + lag)
      in case forecast_model data_mat_tmp horizon of
           Inl e \<Rightarrow> Inl e
         | Inr output_mat \<Rightarrow>
             (let output_mat_T = A2 (transpose_mat output_mat);
                  data_mat_tmp_T = transpose_nd (squeeze data_mat_tmp);
                  joined =
                    (if start_idx st = 0 then concatenate1 data_mat_tmp_T output_mat_T
                     else (case output_mat_full st of
                             None \<Rightarrow> Inl ValueError
                           | Some full \<Rightarrow> concatenate1 (A2 full) output_mat_T))
              in case joined of
                   Inl e \<Rightarrow> Inl e
                 | Inr full \<Rightarrow>
                     Inr \<lparr>output_mat_full = Some full,
                          start_idx = start_idx st + 1,
                          calls = calls st @ [(data_mat_tmp, horizon)]\<rparr>))"

text \<open>
  The loop can run forever (a horizon of 0 never lengthens the accumulator), so it takes
  fuel, the number of passes it may make: \<open>None\<close> is "still running when the fuel ran out",
  \<open>Some (Inl e)\<close> an exception, \<open>Some (Inr st)\<close> the state at loop exit.
\<close>

fun rollout_loop ::
  "nat \<Rightarrow> 'a model \<Rightarrow> 'a mat \<Rightarrow> int \<Rightarrow> int \<Rightarrow> int \<Rightarrow> 'a rollout \<Rightarrow> (error + 'a rollout) option" where
  "rollout_loop 0 fm data_mat lag horizon n st =
     (if loop_cond st n then None else Some (Inr st))"
| "rollout_loop (Suc fuel) fm data_mat lag horizon n st =
     (if loop_cond st n then
        (case loop_body fm data_mat lag horizon st of
           Inl e \<Rightarrow> Some (Inl e)
         | Inr st' \<Rightarrow> rollout_loop fuel fm data_mat lag horizon n st')
      else Some (Inr st))"

text \<open>Lines 167 to 187: the loop from the initial state, then the trim of line 186.\<close>

definition reconstruct ::
  "nat \<Rightarrow> 'a model \<Rightarrow> 'a mat \<Rightarrow> int \<Rightarrow> int \<Rightarrow> int \<Rightarrow> (error + 'a mat \<times> ('a mat \<times> int) list) option" where
  "reconstruct fuel fm data_mat lag horizon output_timesteps =
     (case rollout_loop fuel fm data_mat lag horizon output_timesteps rollout_init of
        None \<Rightarrow> None
      | Some (Inl e) \<Rightarrow> Some (Inl e)
      | Some (Inr st) \<Rightarrow>
          (case output_mat_full st of
             None \<Rightarrow> Some (Inl TypeError)
           | Some full \<Rightarrow> Some (Inr (cols_slice full 0 output_timesteps, calls st))))"

section \<open>The forecast rollout (every other pair id)\<close>

text \<open>
  Lines 209 to 219, from the transposed history \<^verbatim>\<open>torch.tensor(data_mat.T)\<close>: the
  assembled matrix before the transposition of line 220, and the one model call.
  \<open>cast_seed\<close> and \<open>cast_out\<close> are the conversions of \<^verbatim>\<open>torch.cat\<close> on line 219.
\<close>

definition forecast ::
  "'a model \<Rightarrow> ('a \<Rightarrow> 'a) \<Rightarrow> ('a \<Rightarrow> 'a) \<Rightarrow> 'a mat \<Rightarrow> int \<Rightarrow> int \<Rightarrow> int
     \<Rightarrow> error + 'a mat \<times> ('a mat \<times> int) list" where
  "forecast fm cast_seed cast_out history lag output_timesteps pair =
     (let data_mat = rows_from history (- lag)
      in case fm data_mat output_timesteps of
           Inl e \<Rightarrow> Inl e
         | Inr output_mat \<Rightarrow>
             (case (if pair \<in> {8, 9} then cat0 cast_seed cast_out data_mat output_mat
                    else Inr output_mat) of
                Inl e \<Rightarrow> Inl e
              | Inr m \<Rightarrow> Inr (m, [(data_mat, output_timesteps)])))"

section \<open>Mode selection and persistence\<close>

text \<open>The command-line arguments and the dataset configuration that lines 148 to 226 read.\<close>

record args =
  pair_id :: int
  validation :: bool
  dataset :: string
  batch_id :: int
  args_lag :: int
  args_horizon :: int

record dataset_config =
  ds_name :: string
  ds_size :: "int list"

text \<open>
  The functions of \<^verbatim>\<open>ctf4science.data_module\<close> and \<^verbatim>\<open>train\<close> that the code calls;
  none of them is in the source file. The loaders return the training matrices and the
  initial-condition matrix (the validation loader a third value in between, which the
  code drops); the timestep functions return the vector whose \<^verbatim>\<open>shape[0]\<close> the code
  reads. \<^verbatim>\<open>forecast_model\<close> is called with \<^verbatim>\<open>config=args\<close> (lines 172 and 212), so
  the model sees the arguments, its configured lag and horizon among them.
  \<open>seed_cast\<close> and \<open>output_cast\<close> are the element conversions of \<^verbatim>\<open>torch.cat\<close> on
  line 219; the dtypes of the loaded data and of the model's output decide them.
\<close>

record 'a collaborators =
  load_dataset :: "string \<Rightarrow> int \<Rightarrow> 'a mat list \<times> 'a mat"
  load_validation_dataset :: "string \<Rightarrow> int \<Rightarrow> 'a mat list \<times> 'a mat list \<times> 'a mat"
  get_prediction_timesteps :: "string \<Rightarrow> int \<Rightarrow> 'a list"
  get_validation_prediction_timesteps :: "string \<Rightarrow> int \<Rightarrow> 'a list"
  forecast_model :: "args \<Rightarrow> 'a model"
  seed_cast :: "'a \<Rightarrow> 'a"
  output_cast :: "'a \<Rightarrow> 'a"

text \<open>What the run leaves behind: the model calls, the directory and the saved file.\<close>

record 'a effects =
  model_calls :: "('a mat \<times> int) list"
  tmp_pred_made :: bool
  saved :: "(int \<times> 'a mat) option"

text \<open>
  Lines 159 to 164 and 192 to 207 load the same three things in each mode: the training
  matrices, the initial-condition matrix and the number of prediction timesteps.
\<close>

definition train_mats :: "'a collaborators \<Rightarrow> args \<Rightarrow> 'a mat list" where
  "train_mats c a =
     (if validation a then fst (load_validation_dataset c (dataset a) (pair_id a))
      else fst (load_dataset c (dataset a) (pair_id a)))"

definition init_mat :: "'a collaborators \<Rightarrow> args \<Rightarrow> 'a mat" where
  "init_mat c a =
     (if validation a then snd (snd (load_validation_dataset c (dataset a) (pair_id a)))
      else snd (load_dataset c (dataset a) (pair_id a)))"

definition prediction_timesteps :: "'a collaborators \<Rightarrow> args \<Rightarrow> int" where
  "prediction_timesteps c a =
     (if validation a then int (length (get_validation_prediction_timesteps c (dataset a) (pair_id a)))
      else int (length (get_prediction_timesteps c (dataset a) (pair_id a))))"

text \<open>Lines 157 to 220: the matrix to save and the model calls, or an exception.\<close>

definition select_and_run ::
  "nat \<Rightarrow> 'a collaborators \<Rightarrow> args \<Rightarrow> int \<Rightarrow> int \<Rightarrow> (error + 'a mat \<times> ('a mat \<times> int) list) option" where
  "select_and_run fuel c a lag horizon =
     (if pair_id a \<in> {2, 4} then
        (case py_get (train_mats c a) 0 of
           Inl e \<Rightarrow> Some (Inl e)
         | Inr data_mat \<Rightarrow>
             reconstruct fuel (forecast_model c a) (transpose_mat data_mat) lag horizon
               (prediction_timesteps c a))
      else
        (case (if pair_id a \<in> {8, 9} then Inr (init_mat c a) else py_get (train_mats c a) 0) of
           Inl e \<Rightarrow> Some (Inl e)
         | Inr data_mat \<Rightarrow>
             (case forecast (forecast_model c a) (seed_cast c) (output_cast c)
                     (transpose_mat data_mat) lag
                     (if pair_id a \<in> {8, 9} then prediction_timesteps c a - lag
                      else prediction_timesteps c a)
                     (pair_id a) of
                Inl e \<Rightarrow> Some (Inl e)
              | Inr (output_mat, cs) \<Rightarrow> Some (Inr (transpose_mat output_mat, cs)))))"

text \<open>Lines 148 to 226, all that \<^verbatim>\<open>main\<close> does once training has returned.\<close>

definition main_tail ::
  "nat \<Rightarrow> 'a collaborators \<Rightarrow> dataset_config \<Rightarrow> args \<Rightarrow> (error + 'a effects) option" where
  "main_tail fuel c cfg a =
     (if ds_name cfg \<in> set [''ODE_Lorenz'', ''PDE_KS'', ''KS_Official'', ''Lorenz_Official''] then
        (case py_get (ds_size cfg) 0 of
           Inl e \<Rightarrow> Some (Inl e)
         | Inr lag \<Rightarrow>
             (case py_get (ds_size cfg) 2 of
                Inl e \<Rightarrow> Some (Inl e)
              | Inr horizon \<Rightarrow>
                  (case select_and_run fuel c a lag horizon of
                     None \<Rightarrow> None
                   | Some (Inl e) \<Rightarrow> Some (Inl e)
                   | Some (Inr (output_mat, cs)) \<Rightarrow>
                       Some (Inr \<lparr>model_calls = cs, tmp_pred_made = True,
                                  saved = Some (batch_id a, output_mat)\<rparr>))))
      else Some (Inr \<lparr>model_calls = [], tmp_pred_made = False, saved = None\<rparr>))"

section \<open>Vocabulary of the statements\<close>

text \<open>
  The start window of the \<open>i\<close>-th pass of the loop (line 170), for a lag and a horizon
  that are natural numbers.
\<close>

definition window :: "'a mat \<Rightarrow> nat \<Rightarrow> nat \<Rightarrow> nat \<Rightarrow> 'a mat" where
  "window data_mat l h i = rows_slice data_mat (int i * int h) (int i * int h + int l)"

text \<open>Every row of a matrix has as many entries as the matrix has columns.\<close>

definition wf_mat :: "'a mat \<Rightarrow> bool" where
  "wf_mat m = (\<forall>r \<in> set (rows m). length r = ncols m)"

text \<open>
  The number of passes the loop of line 169 makes: the first pass always runs and leaves
  \<open>l + h\<close> columns, each later one adds \<open>h\<close>, until there are \<open>n\<close> or more.
\<close>

definition recon_calls :: "nat \<Rightarrow> nat \<Rightarrow> nat \<Rightarrow> nat" where
  "recon_calls l h n = (if n \<le> l + h then 1 else (n - l + h - 1) div h)"

text \<open>The quotient rounded up, \<open>ceil(a / b)\<close>.\<close>

definition ceil_div :: "nat \<Rightarrow> nat \<Rightarrow> nat" where
  "ceil_div a b = (a + b - 1) div b"

text \<open>
  What the rollout needs from the Forecast Model (its interface in the specification):
  asked for \<open>n\<close> timesteps from a window of \<open>l\<close> rows and \<open>C\<close> columns, it returns
  \<open>n\<close> rows of \<open>C\<close> columns. \<open>model_total\<close> asks the same for a window of any length.
\<close>

definition model_ok :: "'a model \<Rightarrow> nat \<Rightarrow> nat \<Rightarrow> bool" where
  "model_ok fm l C =
     (\<forall>w n. nrows w = l \<and> ncols w = C \<and> 0 \<le> n \<longrightarrow>
        (\<exists>out. fm w n = Inr out \<and> nrows out = nat n \<and> ncols out = C))"

definition model_total :: "'a model \<Rightarrow> nat \<Rightarrow> bool" where
  "model_total fm C =
     (\<forall>w n. ncols w = C \<and> 0 \<le> n \<longrightarrow>
        (\<exists>out. fm w n = Inr out \<and> nrows out = nat n \<and> ncols out = C))"

text \<open>The history is long enough for the window of every pass, the last one included.\<close>

definition history_covers :: "'a mat \<Rightarrow> nat \<Rightarrow> nat \<Rightarrow> nat \<Rightarrow> bool" where
  "history_covers d l h n = ((recon_calls l h n - 1) * h + l \<le> nrows d)"

text \<open>The model answers every pass the loop reaches with \<open>h\<close> rows of the history's width.\<close>

definition steps_ok :: "'a model \<Rightarrow> 'a mat \<Rightarrow> nat \<Rightarrow> nat \<Rightarrow> nat \<Rightarrow> bool" where
  "steps_ok fm d l h n =
     (\<forall>i. (i = 0 \<or> l + i * h < n) \<longrightarrow>
        (\<exists>out. fm (window d l h i) (int h) = Inr out \<and> nrows out = h \<and> ncols out = ncols d))"

text \<open>The accumulator at loop exit, before the trim of line 186.\<close>

definition accumulator ::
  "nat \<Rightarrow> 'a model \<Rightarrow> 'a mat \<Rightarrow> int \<Rightarrow> int \<Rightarrow> int \<Rightarrow> 'a mat option" where
  "accumulator fuel fm data_mat lag horizon n =
     (case rollout_loop fuel fm data_mat lag horizon n rollout_init of
        Some (Inr st) \<Rightarrow> output_mat_full st
      | _ \<Rightarrow> None)"

text \<open>The number of model calls of a rollout that returned.\<close>

definition calls_made :: "(error + 'a mat \<times> ('a mat \<times> int) list) option \<Rightarrow> nat option" where
  "calls_made r = (case r of Some (Inr (m, cs)) \<Rightarrow> Some (length cs) | _ \<Rightarrow> None)"

text \<open>
  The matrix the rollout starts from, as loaded (channel-major): the initial-condition
  matrix for pair ids 8 and 9 (lines 195 and 203), the first training matrix otherwise
  (lines 165, 198 and 206).
\<close>

definition history_source :: "'a collaborators \<Rightarrow> args \<Rightarrow> 'a mat option" where
  "history_source c a =
     (if pair_id a \<in> {8, 9} then Some (init_mat c a)
      else (case train_mats c a of [] \<Rightarrow> None | tm # _ \<Rightarrow> Some tm))"

text \<open>The shape (rows, columns) of the matrix that line 226 saved, if the run saved one.\<close>

definition saved_shape :: "(error + 'a effects) option \<Rightarrow> (nat \<times> nat) option" where
  "saved_shape r =
     (case r of
        Some (Inr eff) \<Rightarrow> (case saved eff of Some (b, m) \<Rightarrow> Some (nrows m, ncols m) | None \<Rightarrow> None)
      | _ \<Rightarrow> None)"

subsection \<open>A small concrete setting\<close>

text \<open>
  A model that answers any window with rows of sevens, and a history of six timesteps
  and two channels; the same history as the loaders return it (channel-major), an
  initial-condition matrix of three timesteps, five prediction timesteps (four for
  validation), and a dataset configuration with lag 3 and horizon 2. The model's own
  configured lag and horizon are 5 and 4.
\<close>

definition example_model :: "int model" where
  "example_model w n = Inr (Mat (ncols w) (replicate (nat n) (replicate (ncols w) 7)))"

definition example_history :: "int mat" where
  "example_history = Mat 2 [[1, 2], [3, 4], [5, 6], [7, 8], [9, 10], [11, 12]]"

definition example_train :: "int mat" where
  "example_train = Mat 6 [[1, 3, 5, 7, 9, 11], [2, 4, 6, 8, 10, 12]]"

definition example_init :: "int mat" where
  "example_init = Mat 3 [[21, 23, 25], [22, 24, 26]]"

definition example_collaborators :: "int collaborators" where
  "example_collaborators =
     \<lparr>load_dataset = (\<lambda>ds p. ([example_train], example_init)),
      load_validation_dataset = (\<lambda>ds p. ([example_train], [], example_init)),
      get_prediction_timesteps = (\<lambda>ds p. [0, 1, 2, 3, 4]),
      get_validation_prediction_timesteps = (\<lambda>ds p. [0, 1, 2, 3]),
      forecast_model = (\<lambda>a. example_model),
      seed_cast = (\<lambda>x. x),
      output_cast = (\<lambda>x. x)\<rparr>"

definition example_config :: dataset_config where
  "example_config = \<lparr>ds_name = ''ODE_Lorenz'', ds_size = [3, 0, 2]\<rparr>"

definition other_config :: dataset_config where
  "other_config = \<lparr>ds_name = ''ETTh1'', ds_size = [3, 0, 2]\<rparr>"

definition example_args :: "int \<Rightarrow> args" where
  "example_args p = \<lparr>pair_id = p, validation = False, dataset = ''ODE_Lorenz'', batch_id = 0,
                      args_lag = 5, args_horizon = 4\<rparr>"

text \<open>
  A model that refuses every window that does not have 3 rows; a dataset configuration
  with lag 4, which the initial-condition matrix of three timesteps does not cover;
  the specification's scenario of lag 4 and horizon 20; and collaborators whose
  \<^verbatim>\<open>torch.cat\<close> rounds the seed to even numbers, as a narrower dtype would.
\<close>

definition strict_model :: "int model" where
  "strict_model w n = (if nrows w = 3 then example_model w n else Inl ModelError)"

definition long_lag_config :: dataset_config where
  "long_lag_config = \<lparr>ds_name = ''ODE_Lorenz'', ds_size = [4, 0, 2]\<rparr>"

definition scenario_config :: dataset_config where
  "scenario_config = \<lparr>ds_name = ''ODE_Lorenz'', ds_size = [4, 0, 20]\<rparr>"

definition rounding_collaborators :: "int collaborators" where
  "rounding_collaborators = example_collaborators\<lparr>seed_cast := (\<lambda>x. 2 * (x div 2))\<rparr>"

section \<open>Lemmas\<close>

subsection \<open>Slices and transposes\<close>

lemma py_bound_nat [simp]: "py_bound (int a) n = min a n"
  by (simp add: py_bound_def)

lemma py_bound_0 [simp]: "py_bound 0 n = 0"
  by (simp add: py_bound_def)

lemma py_slice_nat: "py_slice xs (int a) (int b) = take (b - a) (drop a xs)"
  by (cases "a \<le> length xs") (simp_all add: py_slice_def Let_def min_def)

lemma py_slice_0: "py_slice xs 0 (int b) = take b xs"
  using py_slice_nat [of xs 0 b] by simp

lemma window_rows: "rows (window d l h i) = take l (drop (i * h) (rows d))"
proof -
  have "rows (window d l h i) = py_slice (rows d) (int (i * h)) (int (i * h + l))"
    by (simp add: window_def rows_slice_def)
  also have "\<dots> = take l (drop (i * h) (rows d))"
    by (simp only: py_slice_nat add_diff_cancel_left')
  finally show ?thesis .
qed

lemma window_ncols [simp]: "ncols (window d l h i) = ncols d"
  by (simp add: window_def rows_slice_def)

lemma window_nrows: "nrows (window d l h i) = min l (nrows d - i * h)"
  by (simp add: nrows_def window_rows)

lemma nrows_transpose [simp]: "nrows (transpose_mat m) = ncols m"
  by (simp add: nrows_def transpose_mat_def)

lemma ncols_transpose [simp]: "ncols (transpose_mat m) = nrows m"
  by (simp add: transpose_mat_def)

lemma wf_transpose [simp]: "wf_mat (transpose_mat m)"
  by (auto simp: wf_mat_def transpose_mat_def nrows_def)

lemma map_take_map2_append:
  "length xs = length ys \<Longrightarrow> \<forall>x \<in> set xs. length x = k \<Longrightarrow> map (take k) (map2 (@) xs ys) = xs"
  by (induction xs ys rule: list_induct2) simp_all

lemma set_map2_length:
  assumes "\<forall>x \<in> set xs. length x = a" and "\<forall>y \<in> set ys. length y = b"
  shows "\<forall>z \<in> set (map2 (@) xs ys). length z = a + b"
proof
  fix z assume "z \<in> set (map2 (@) xs ys)"
  then obtain x y where "(x, y) \<in> set (zip xs ys)" and z: "z = x @ y" by auto
  then have "x \<in> set xs" "y \<in> set ys" by (auto dest: set_zip_leftD set_zip_rightD)
  with assms z show "length z = a + b" by simp
qed

lemma concatenate1_ok:
  assumes "nrows a = nrows b"
  shows "concatenate1 (A2 a) (A2 b) = Inr (Mat (ncols a + ncols b) (map2 (@) (rows a) (rows b)))"
  using assms by simp

subsection \<open>The loop invariant\<close>

lemma loop_cond_Some: "output_mat_full st = Some acc \<Longrightarrow> loop_cond st (int n) = (ncols acc < n)"
  by (simp add: loop_cond_def)

lemma loop_body_later:
  assumes "start_idx st = s" "0 < s" "output_mat_full st = Some acc" "nrows acc = C"
    and "fm (window d l h s) (int h) = Inr out" "ncols out = C"
  shows "loop_body fm d (int l) (int h) st =
         Inr \<lparr>output_mat_full = Some (Mat (ncols acc + nrows out) (map2 (@) (rows acc) (rows (transpose_mat out)))),
              start_idx = s + 1, calls = calls st @ [(window d l h s, int h)]\<rparr>"
  using assms by (simp add: loop_body_def Let_def window_def)

lemma wf_concat:
  assumes "wf_mat a" "wf_mat b"
  shows "wf_mat (Mat (ncols a + ncols b) (map2 (@) (rows a) (rows b)))"
  using set_map2_length [of "rows a" "ncols a" "rows b" "ncols b"] assms
  by (simp add: wf_mat_def)

lemma loop_tail:
  assumes h: "0 < h"
    and ok: "\<And>i. s \<le> i \<Longrightarrow> l + i * h < n \<Longrightarrow>
               \<exists>out. fm (window d l h i) (int h) = Inr out \<and> nrows out = h \<and> ncols out = C"
    and st: "start_idx st = s" "0 < s" "output_mat_full st = Some acc" "nrows acc = C"
            "ncols acc = l + s * h" "wf_mat acc"
    and fuel: "n \<le> l + (s + fuel) * h"
  shows "\<exists>k acc'. rollout_loop fuel fm d (int l) (int h) (int n) st =
            Some (Inr \<lparr>output_mat_full = Some acc', start_idx = k,
                       calls = calls st @ map (\<lambda>i. (window d l h i, int h)) [s..<k]\<rparr>)
          \<and> s \<le> k \<and> (k = s \<or> l + (k - 1) * h < n) \<and> n \<le> l + k * h
          \<and> nrows acc' = C \<and> ncols acc' = l + k * h \<and> wf_mat acc'
          \<and> map (take (ncols acc)) (rows acc') = rows acc"
  using ok st fuel
proof (induction fuel arbitrary: st s acc)
  case 0
  then have "\<not> loop_cond st (int n)" by (simp add: loop_cond_Some)
  moreover have "st = \<lparr>output_mat_full = Some acc, start_idx = s, calls = calls st @ map (\<lambda>i. (window d l h i, int h)) [s..<s]\<rparr>"
    using 0 by simp
  moreover have "map (take (ncols acc)) (rows acc) = rows acc"
    using \<open>wf_mat acc\<close> by (simp add: wf_mat_def map_idI)
  ultimately show ?case using 0
    by (intro exI [of _ s] exI [of _ acc]) simp
next
  case (Suc fuel)
  show ?case
  proof (cases "l + s * h < n")
    case False
    then have "\<not> loop_cond st (int n)" using Suc.prems by (simp add: loop_cond_Some)
    moreover have "st = \<lparr>output_mat_full = Some acc, start_idx = s, calls = calls st @ map (\<lambda>i. (window d l h i, int h)) [s..<s]\<rparr>"
      using Suc.prems by simp
    moreover have "map (take (ncols acc)) (rows acc) = rows acc"
      using \<open>wf_mat acc\<close> by (simp add: wf_mat_def map_idI)
    ultimately show ?thesis using Suc.prems False
      by (intro exI [of _ s] exI [of _ acc]) simp
  next
    case True
    then have cond: "loop_cond st (int n)" using Suc.prems by (simp add: loop_cond_Some)
    from Suc.prems(1) [of s] True obtain out
      where out: "fm (window d l h s) (int h) = Inr out" "nrows out = h" "ncols out = C" by auto
    define acc2 where "acc2 = Mat (ncols acc + nrows out) (map2 (@) (rows acc) (rows (transpose_mat out)))"
    define st2 where "st2 = \<lparr>output_mat_full = Some acc2, start_idx = s + 1,
                             calls = calls st @ [(window d l h s, int h)]\<rparr>"
    have body: "loop_body fm d (int l) (int h) st = Inr st2"
      unfolding st2_def acc2_def
      using Suc.prems(2-5) out by (intro loop_body_later) auto
    have run: "rollout_loop (Suc fuel) fm d (int l) (int h) (int n) st =
               rollout_loop fuel fm d (int l) (int h) (int n) st2"
      using cond body by simp
    have len: "length (rows acc) = length (rows (transpose_mat out))"
      using Suc.prems(5) out(3) nrows_transpose [of out] by (simp add: nrows_def)
    have wf2: "wf_mat acc2"
      using wf_concat [OF \<open>wf_mat acc\<close> wf_transpose [of out]] by (simp add: acc2_def)
    have n2: "nrows acc2 = C" using len Suc.prems(5) by (simp add: acc2_def nrows_def)
    have c2: "ncols acc2 = l + (s + 1) * h" using Suc.prems(6) out(2) by (simp add: acc2_def)
    have pre2: "map (take (ncols acc)) (rows acc2) = rows acc"
      using map_take_map2_append [OF len, of "ncols acc"] \<open>wf_mat acc\<close>
      by (simp add: acc2_def wf_mat_def)
    have "\<exists>k acc'. rollout_loop fuel fm d (int l) (int h) (int n) st2 =
            Some (Inr \<lparr>output_mat_full = Some acc', start_idx = k,
                       calls = calls st2 @ map (\<lambda>i. (window d l h i, int h)) [s + 1..<k]\<rparr>)
          \<and> s + 1 \<le> k \<and> (k = s + 1 \<or> l + (k - 1) * h < n) \<and> n \<le> l + k * h
          \<and> nrows acc' = C \<and> ncols acc' = l + k * h \<and> wf_mat acc'
          \<and> map (take (ncols acc2)) (rows acc') = rows acc2"
    proof (rule Suc.IH)
      show "\<exists>out. fm (window d l h i) (int h) = Inr out \<and> nrows out = h \<and> ncols out = C"
        if "s + 1 \<le> i" "l + i * h < n" for i
        using that Suc.prems(1) [of i] by simp
      show "start_idx st2 = s + 1" "output_mat_full st2 = Some acc2" by (simp_all add: st2_def)
      show "0 < s + 1" by simp
      show "nrows acc2 = C" by (rule n2)
      show "ncols acc2 = l + (s + 1) * h" by (rule c2)
      show "wf_mat acc2" by (rule wf2)
      show "n \<le> l + (s + 1 + fuel) * h" using Suc.prems(8) by simp
    qed
    then obtain k acc' where res:
      "rollout_loop fuel fm d (int l) (int h) (int n) st2 =
            Some (Inr \<lparr>output_mat_full = Some acc', start_idx = k,
                       calls = calls st2 @ map (\<lambda>i. (window d l h i, int h)) [s + 1..<k]\<rparr>)"
      "s + 1 \<le> k" "k = s + 1 \<or> l + (k - 1) * h < n" "n \<le> l + k * h"
      "nrows acc' = C" "ncols acc' = l + k * h" "wf_mat acc'"
      "map (take (ncols acc2)) (rows acc') = rows acc2"
      by blast
    have log: "calls st2 @ map (\<lambda>i. (window d l h i, int h)) [s + 1..<k]
               = calls st @ map (\<lambda>i. (window d l h i, int h)) [s..<k]"
      using res(2) by (simp add: st2_def upt_conv_Cons)
    have "map (take (ncols acc)) (map (take (ncols acc2)) (rows acc')) = map (take (ncols acc)) (rows acc')"
      using c2 Suc.prems(6) by (simp add: min_def)
    then have pre: "map (take (ncols acc)) (rows acc') = rows acc"
      using res(8) pre2 by simp
    have "k = s \<or> l + (k - 1) * h < n"
      using res(3) True by auto
    then show ?thesis
      using run res(1,2,4,5,6,7) log pre
      by (intro exI [of _ k] exI [of _ acc']) simp
  qed
qed

lemma recon_calls_unique:
  assumes "0 < h" "1 \<le> k" "k = 1 \<or> l + (k - 1) * h < n" "n \<le> l + k * h"
  shows "k = recon_calls l h n"
proof (cases "n \<le> l + h")
  case True
  have "k = 1"
  proof (rule ccontr)
    assume "k \<noteq> 1"
    then have "2 \<le> k" and lt: "l + (k - 1) * h < n" using assms by auto
    then have "h \<le> (k - 1) * h" by (cases "k - 1") auto
    then show False using lt True by linarith
  qed
  then show ?thesis using True by (simp add: recon_calls_def)
next
  case False
  then have "k \<noteq> 1" using assms(4) by auto
  then have lt: "l + (k - 1) * h < n" using assms(3) by simp
  obtain j where j: "k = Suc j" using assms(2) by (cases k) auto
  have lt': "l + j * h < n" using lt j by simp
  have le': "n \<le> l + (j * h + h)" using assms(4) j by simp
  have "(n - l + h - 1) div h = Suc j"
  proof (rule div_nat_eqI)
    show "h * Suc j \<le> n - l + h - 1" using lt' by (simp add: mult.commute)
    show "n - l + h - 1 < h * Suc (Suc j)" using assms(1) le' False by (simp add: mult.commute)
  qed
  then show ?thesis using False j by (simp add: recon_calls_def)
qed

lemma recon_calls_pos: "0 < h \<Longrightarrow> 1 \<le> recon_calls l h n"
  by (auto simp: recon_calls_def Suc_le_eq div_greater_zero_iff)

lemma recon_calls_covers:
  assumes "0 < h" shows "n \<le> l + recon_calls l h n * h"
proof (cases "n \<le> l + h")
  case True then show ?thesis by (simp add: recon_calls_def)
next
  case False
  have "n - l + h - 1 < (n - l + h - 1) div h * h + h"
    using assms div_mult_mod_eq [of "n - l + h - 1" h] mod_less_divisor [OF assms, of "n - l + h - 1"] by linarith
  then show ?thesis using False by (simp add: recon_calls_def)
qed

lemma ncols_rows_slice [simp]: "ncols (rows_slice d a b) = ncols d"
  by (simp add: rows_slice_def)

lemma window_0: "window d l h 0 = rows_slice d 0 (int l)"
  by (simp add: window_def)

lemma loop_body_first:
  assumes "2 \<le> l" "l \<le> nrows d" "2 \<le> ncols d"
    and "fm (window d l h 0) (int h) = Inr out" "ncols out = ncols d"
  shows "loop_body fm d (int l) (int h) rollout_init =
     Inr \<lparr>output_mat_full = Some (Mat (l + nrows out)
              (map2 (@) (rows (transpose_mat (window d l h 0))) (rows (transpose_mat out)))),
          start_idx = 1, calls = [(window d l h 0, int h)]\<rparr>"
proof -
  have "nrows (window d l h 0) = l" using assms(2) by (simp add: window_nrows)
  then have "squeeze (window d l h 0) = A2 (window d l h 0)"
    using assms(1,3) by (simp add: squeeze_def)
  then show ?thesis
    using assms(4,5) \<open>nrows (window d l h 0) = l\<close>
    by (simp add: loop_body_def Let_def rollout_init_def window_0)
qed

lemma rollout_loop_run:
  assumes h: "0 < h" and l: "2 \<le> l" "l \<le> nrows d" and C: "ncols d = C" "2 \<le> C"
    and ok: "\<And>i. i = 0 \<or> l + i * h < n \<Longrightarrow>
               \<exists>out. fm (window d l h i) (int h) = Inr out \<and> nrows out = h \<and> ncols out = C"
    and fuel: "recon_calls l h n \<le> fuel"
  shows "\<exists>acc. rollout_loop fuel fm d (int l) (int h) (int n) rollout_init =
            Some (Inr \<lparr>output_mat_full = Some acc, start_idx = recon_calls l h n,
                       calls = map (\<lambda>i. (window d l h i, int h)) [0..<recon_calls l h n]\<rparr>)
          \<and> nrows acc = C \<and> ncols acc = l + recon_calls l h n * h \<and> wf_mat acc
          \<and> map (take l) (rows acc) = rows (transpose_mat (window d l h 0))"
proof -
  from ok [of 0] obtain out
    where out: "fm (window d l h 0) (int h) = Inr out" "nrows out = h" "ncols out = C" by auto
  define acc1 where "acc1 = Mat (l + nrows out)
              (map2 (@) (rows (transpose_mat (window d l h 0))) (rows (transpose_mat out)))"
  define st1 where "st1 = \<lparr>output_mat_full = Some acc1, start_idx = 1,
                           calls = [(window d l h 0, int h)]\<rparr>"
  have body: "loop_body fm d (int l) (int h) rollout_init = Inr st1"
    unfolding st1_def acc1_def using l C out by (intro loop_body_first) auto
  from recon_calls_pos [OF h, of l n] fuel obtain f where f: "fuel = Suc f"
    by (cases fuel) auto
  have run: "rollout_loop fuel fm d (int l) (int h) (int n) rollout_init =
             rollout_loop f fm d (int l) (int h) (int n) st1"
    using body by (simp add: f loop_cond_def rollout_init_def)
  have wl: "nrows (window d l h 0) = l" using l by (simp add: window_nrows)
  have len: "length (rows (transpose_mat (window d l h 0))) = length (rows (transpose_mat out))"
    using nrows_transpose [of out] nrows_transpose [of "window d l h 0"] out(3) C(1)
    by (simp add: nrows_def)
  have wfw: "\<forall>r \<in> set (rows (transpose_mat (window d l h 0))). length r = l"
    using wf_transpose [of "window d l h 0"] wl by (simp add: wf_mat_def)
  have wf1: "wf_mat acc1"
    using wf_concat [OF wf_transpose [of "window d l h 0"] wf_transpose [of out]] wl
    by (simp add: acc1_def)
  have n1: "nrows acc1 = C"
    using len nrows_transpose [of out] out(3) by (simp add: acc1_def nrows_def)
  have c1: "ncols acc1 = l + 1 * h" using out(2) by (simp add: acc1_def)
  have pre1: "map (take l) (rows acc1) = rows (transpose_mat (window d l h 0))"
    using map_take_map2_append [OF len wfw] by (simp add: acc1_def)
  have "\<exists>k acc'. rollout_loop f fm d (int l) (int h) (int n) st1 =
            Some (Inr \<lparr>output_mat_full = Some acc', start_idx = k,
                       calls = calls st1 @ map (\<lambda>i. (window d l h i, int h)) [1..<k]\<rparr>)
          \<and> 1 \<le> k \<and> (k = 1 \<or> l + (k - 1) * h < n) \<and> n \<le> l + k * h
          \<and> nrows acc' = C \<and> ncols acc' = l + k * h \<and> wf_mat acc'
          \<and> map (take (ncols acc1)) (rows acc') = rows acc1"
  proof (rule loop_tail [OF h])
    show "\<exists>out. fm (window d l h i) (int h) = Inr out \<and> nrows out = h \<and> ncols out = C"
      if "1 \<le> i" "l + i * h < n" for i
      using that ok [of i] by simp
    show "start_idx st1 = 1" "output_mat_full st1 = Some acc1" by (simp_all add: st1_def)
    show "0 < (1::nat)" by simp
    show "nrows acc1 = C" by (rule n1)
    show "ncols acc1 = l + 1 * h" by (rule c1)
    show "wf_mat acc1" by (rule wf1)
    show "n \<le> l + (1 + f) * h"
    proof -
      have "recon_calls l h n * h \<le> (1 + f) * h"
        using fuel f by (intro mult_le_mono1) simp
      then show ?thesis using recon_calls_covers [OF h, of n l] by linarith
    qed
  qed
  then obtain k acc' where res:
    "rollout_loop f fm d (int l) (int h) (int n) st1 =
            Some (Inr \<lparr>output_mat_full = Some acc', start_idx = k,
                       calls = calls st1 @ map (\<lambda>i. (window d l h i, int h)) [1..<k]\<rparr>)"
    "1 \<le> k" "k = 1 \<or> l + (k - 1) * h < n" "n \<le> l + k * h"
    "nrows acc' = C" "ncols acc' = l + k * h" "wf_mat acc'"
    "map (take (ncols acc1)) (rows acc') = rows acc1"
    by blast
  have k: "k = recon_calls l h n" by (rule recon_calls_unique [OF h res(2,3,4)])
  have log: "calls st1 @ map (\<lambda>i. (window d l h i, int h)) [1..<k]
             = map (\<lambda>i. (window d l h i, int h)) [0..<k]"
    using res(2) by (simp add: st1_def upt_conv_Cons)
  have "map (take l) (map (take (ncols acc1)) (rows acc')) = map (take l) (rows acc')"
    using c1 by (simp add: min_def)
  then have pre: "map (take l) (rows acc') = rows (transpose_mat (window d l h 0))"
    using res(8) pre1 by simp
  show ?thesis
    using run res(1,5,6,7) log pre k
    by (intro exI [of _ acc']) simp
qed

lemma cols_slice_0: "cols_slice m 0 (int b) = Mat (min b (ncols m)) (map (take b) (rows m))"
  by (simp add: cols_slice_def py_slice_0)

lemma reached_lt_calls:
  assumes "0 < h" "l + i * h < n"
  shows "i < recon_calls l h n"
proof (rule ccontr)
  assume "\<not> i < recon_calls l h n"
  then have "recon_calls l h n * h \<le> i * h" by (intro mult_le_mono1) simp
  then show False using recon_calls_covers [OF assms(1), of n l] assms(2) by linarith
qed

lemma steps_ok_total:
  assumes "model_total fm (ncols d)"
  shows "steps_ok fm d l h n"
  unfolding steps_ok_def
  using assms [unfolded model_total_def, rule_format, of "window d l h i" "int h" for i] by simp

lemma steps_ok_covered:
  assumes "0 < h" "model_ok fm l (ncols d)" "history_covers d l h n"
  shows "steps_ok fm d l h n"
  unfolding steps_ok_def
proof (intro allI impI)
  fix i assume i: "i = 0 \<or> l + i * h < n"
  have "i \<le> recon_calls l h n - 1"
    using i reached_lt_calls [OF assms(1), of l i n] by auto
  then have "i * h \<le> (recon_calls l h n - 1) * h" by (intro mult_le_mono1)
  then have "i * h + l \<le> nrows d" using assms(3) unfolding history_covers_def by linarith
  then have "nrows (window d l h i) = l" by (simp add: window_nrows)
  then show "\<exists>out. fm (window d l h i) (int h) = Inr out \<and> nrows out = h \<and> ncols out = ncols d"
    using assms(2) [unfolded model_ok_def, rule_format, of "window d l h i" "int h"] by simp
qed

lemma reconstruct_run:
  assumes h: "0 < h" and l: "2 \<le> l" "l \<le> nrows d" and C: "2 \<le> ncols d"
    and ok: "steps_ok fm d l h n"
    and fuel: "recon_calls l h n \<le> fuel"
  shows "\<exists>acc. accumulator fuel fm d (int l) (int h) (int n) = Some acc
          \<and> reconstruct fuel fm d (int l) (int h) (int n) =
              Some (Inr (cols_slice acc 0 (int n),
                         map (\<lambda>i. (window d l h i, int h)) [0..<recon_calls l h n]))
          \<and> nrows acc = ncols d \<and> ncols acc = l + recon_calls l h n * h \<and> wf_mat acc
          \<and> map (take l) (rows acc) = rows (transpose_mat (window d l h 0))"
proof -
  have "\<exists>acc. rollout_loop fuel fm d (int l) (int h) (int n) rollout_init =
            Some (Inr \<lparr>output_mat_full = Some acc, start_idx = recon_calls l h n,
                       calls = map (\<lambda>i. (window d l h i, int h)) [0..<recon_calls l h n]\<rparr>)
          \<and> nrows acc = ncols d \<and> ncols acc = l + recon_calls l h n * h \<and> wf_mat acc
          \<and> map (take l) (rows acc) = rows (transpose_mat (window d l h 0))"
  proof (rule rollout_loop_run [OF h l refl C])
    show "\<exists>out. fm (window d l h i) (int h) = Inr out \<and> nrows out = h \<and> ncols out = ncols d"
      if "i = 0 \<or> l + i * h < n" for i
      using ok that unfolding steps_ok_def by blast
    show "recon_calls l h n \<le> fuel" by (rule fuel)
  qed
  then obtain acc where
    "rollout_loop fuel fm d (int l) (int h) (int n) rollout_init =
            Some (Inr \<lparr>output_mat_full = Some acc, start_idx = recon_calls l h n,
                       calls = map (\<lambda>i. (window d l h i, int h)) [0..<recon_calls l h n]\<rparr>)"
    "nrows acc = ncols d" "ncols acc = l + recon_calls l h n * h" "wf_mat acc"
    "map (take l) (rows acc) = rows (transpose_mat (window d l h 0))"
    by blast
  then show ?thesis
    by (intro exI [of _ acc]) (simp add: reconstruct_def accumulator_def)
qed

lemma seed_is_window: "rows_slice d 0 (int l) = window d l h 0"
  by (simp add: window_0)

lemma recon_calls_ceil: "0 < h \<Longrightarrow> recon_calls l h n = max 1 (ceil_div (n - l) h)"
proof (cases "n \<le> l + h")
  case True
  assume h: "0 < h"
  have "n - l + h - 1 < 2 * h" using True h by simp
  then have "(n - l + h - 1) div h < 2" by (rule less_mult_imp_div_less)
  then show ?thesis using True by (simp add: recon_calls_def ceil_div_def max_def)
next
  case False
  assume h: "0 < h"
  have "h \<le> n - l + h - 1" using False by simp
  then have "0 < (n - l + h - 1) div h" using h by (simp add: div_greater_zero_iff)
  then show ?thesis using False by (simp add: recon_calls_def ceil_div_def max_def)
qed

subsection \<open>The log of model calls\<close>

lemma loop_body_calls:
  assumes "loop_body fm d lag h st = Inr st'"
  shows "start_idx st' = start_idx st + 1"
    and "calls st' = calls st @ [(rows_slice d (int (start_idx st) * h) (int (start_idx st) * h + lag), h)]"
  using assms by (auto simp: loop_body_def Let_def split: sum.splits if_splits option.splits)

lemma rollout_loop_calls:
  assumes "rollout_loop fuel fm d lag h n st = Some (Inr st')"
    and "calls st = map (\<lambda>i. (rows_slice d (int i * h) (int i * h + lag), h)) [0..<start_idx st]"
  shows "calls st' = map (\<lambda>i. (rows_slice d (int i * h) (int i * h + lag), h)) [0..<start_idx st']"
  using assms
proof (induction fuel arbitrary: st)
  case 0
  then show ?case by (simp split: if_splits)
next
  case (Suc fuel)
  show ?case
  proof (cases "loop_cond st n")
    case False
    then show ?thesis using Suc.prems by simp
  next
    case True
    then obtain st2 where body: "loop_body fm d lag h st = Inr st2"
      and run: "rollout_loop fuel fm d lag h n st2 = Some (Inr st')"
      using Suc.prems(1) by (auto split: sum.splits)
    have "calls st2 = map (\<lambda>i. (rows_slice d (int i * h) (int i * h + lag), h)) [0..<start_idx st2]"
      using loop_body_calls [OF body] Suc.prems(2) by simp
    then show ?thesis by (rule Suc.IH [OF run])
  qed
qed

lemma reconstruct_calls:
  assumes "reconstruct fuel fm d lag h n = Some (Inr (out, cs))"
  shows "\<exists>k. cs = map (\<lambda>i. (rows_slice d (int i * h) (int i * h + lag), h)) [0..<k]"
proof -
  from assms obtain st where run: "rollout_loop fuel fm d lag h n rollout_init = Some (Inr st)"
    and cs: "cs = calls st"
    by (auto simp: reconstruct_def split: option.splits sum.splits)
  have "calls st = map (\<lambda>i. (rows_slice d (int i * h) (int i * h + lag), h)) [0..<start_idx st]"
    by (rule rollout_loop_calls [OF run]) (simp add: rollout_init_def)
  then show ?thesis using cs by blast
qed

subsection \<open>The trim\<close>

lemma recon_calls_min:
  assumes "0 < h"
  shows "recon_calls l h n = 1 \<or> l + (recon_calls l h n - 1) * h < n"
proof (cases "n \<le> l + h")
  case True
  then show ?thesis by (simp add: recon_calls_def)
next
  case False
  define k where "k = (n - l + h - 1) div h"
  have "k * h \<le> n - l + h - 1" unfolding k_def by simp
  moreover have "0 < k" unfolding k_def using False assms by (simp add: div_greater_zero_iff)
  then have "k * h = (k - 1) * h + h" by (cases k) simp_all
  ultimately have "l + (k - 1) * h < n" using False assms by linarith
  then show ?thesis using False by (simp add: recon_calls_def k_def)
qed

lemma cols_slice_wf:
  assumes "wf_mat m" "ncols m \<le> b"
  shows "cols_slice m 0 (int b) = m"
proof -
  have "map (take b) (rows m) = rows m"
    using assms by (simp add: wf_mat_def map_idI)
  then have "cols_slice m 0 (int b) = Mat (ncols m) (rows m)"
    using assms(2) by (simp add: cols_slice_0 min_def)
  then show ?thesis by simp
qed

lemma cols_slice_twice:
  assumes "a \<le> b"
  shows "cols_slice (cols_slice m 0 (int b)) 0 (int a) = cols_slice m 0 (int a)"
  using assms by (simp add: cols_slice_0 min_def)

subsection \<open>Forecast mode and mode selection\<close>

lemma rows_from_last:
  assumes "1 \<le> l"
  shows "rows_from d (- int l) = Mat (ncols d) (drop (nrows d - l) (rows d))"
proof -
  have "py_bound (- int l) (nrows d) = nrows d - l"
    using assms by (simp add: py_bound_def nat_diff_distrib')
  then show ?thesis by (simp add: rows_from_def)
qed

lemma prediction_timesteps_nat: "prediction_timesteps c a = int (nat (prediction_timesteps c a))"
  by (simp add: prediction_timesteps_def)

lemma main_tail_recon:
  assumes "ds_name cfg \<in> set [''ODE_Lorenz'', ''PDE_KS'', ''KS_Official'', ''Lorenz_Official'']"
    and "ds_size cfg = lag # x # horizon # rest"
    and "pair_id a \<in> {2, 4}" "train_mats c a = tm # tms"
  shows "main_tail fuel c cfg a =
           (case reconstruct fuel (forecast_model c a) (transpose_mat tm) lag horizon (prediction_timesteps c a) of
              None \<Rightarrow> None
            | Some (Inl e) \<Rightarrow> Some (Inl e)
            | Some (Inr (output_mat, cs)) \<Rightarrow>
                Some (Inr \<lparr>model_calls = cs, tmp_pred_made = True, saved = Some (batch_id a, output_mat)\<rparr>))"
  using assms by (simp add: main_tail_def select_and_run_def py_get_def)

lemma main_tail_forecast:
  assumes "ds_name cfg \<in> set [''ODE_Lorenz'', ''PDE_KS'', ''KS_Official'', ''Lorenz_Official'']"
    and "ds_size cfg = lag # x # horizon # rest"
    and "pair_id a \<notin> {2, 4}" "history_source c a = Some src"
  shows "main_tail fuel c cfg a =
           (case forecast (forecast_model c a) (seed_cast c) (output_cast c) (transpose_mat src) lag
                   (if pair_id a \<in> {8, 9} then prediction_timesteps c a - lag else prediction_timesteps c a)
                   (pair_id a) of
              Inl e \<Rightarrow> Some (Inl e)
            | Inr (output_mat, cs) \<Rightarrow>
                Some (Inr \<lparr>model_calls = cs, tmp_pred_made = True,
                           saved = Some (batch_id a, transpose_mat output_mat)\<rparr>))"
proof (cases "pair_id a \<in> {8, 9}")
  case True
  then have "src = init_mat c a" using assms(3,4) by (simp add: history_source_def)
  then show ?thesis
    using assms(1,2,3) True
    by (simp add: main_tail_def select_and_run_def py_get_def split: sum.splits prod.splits)
next
  case False
  then obtain tms where "train_mats c a = src # tms"
    using assms(4) by (auto simp: history_source_def split: list.splits)
  then show ?thesis
    using assms(1,2,3) False
    by (simp add: main_tail_def select_and_run_def py_get_def split: sum.splits prod.splits)
qed

lemma forecast_eq:
  assumes "1 \<le> l"
  shows "forecast fm cast_seed cast_out d (int l) n pair =
     (case fm (Mat (ncols d) (drop (nrows d - l) (rows d))) n of
        Inl e \<Rightarrow> Inl e
      | Inr out \<Rightarrow>
          if pair \<in> {8, 9} then
            (if ncols d = ncols out
             then Inr (Mat (ncols d) (map (map cast_seed) (drop (nrows d - l) (rows d))
                                        @ map (map cast_out) (rows out)),
                       [(Mat (ncols d) (drop (nrows d - l) (rows d)), n)])
             else Inl RuntimeError)
          else Inr (out, [(Mat (ncols d) (drop (nrows d - l) (rows d)), n)]))"
  by (simp add: forecast_def rows_from_last [OF assms] cat0_def split: sum.splits)

lemma main_tail_forecast_eq:
  assumes ds: "ds_name cfg \<in> set [''ODE_Lorenz'', ''PDE_KS'', ''KS_Official'', ''Lorenz_Official'']"
    and size: "ds_size cfg = int l # x # horizon # rest" and l: "1 \<le> l"
    and pair: "pair_id a \<notin> {2, 4}" and src: "history_source c a = Some src"
  shows "main_tail fuel c cfg a =
     (case forecast_model c a (Mat (nrows src) (drop (ncols src - l) (rows (transpose_mat src))))
             (if pair_id a \<in> {8, 9} then prediction_timesteps c a - int l
              else prediction_timesteps c a) of
        Inl e \<Rightarrow> Some (Inl e)
      | Inr out \<Rightarrow>
          if pair_id a \<in> {8, 9} then
            (if nrows src = ncols out
             then Some (Inr \<lparr>model_calls =
                               [(Mat (nrows src) (drop (ncols src - l) (rows (transpose_mat src))),
                                 prediction_timesteps c a - int l)],
                             tmp_pred_made = True,
                             saved = Some (batch_id a,
                               transpose_mat (Mat (nrows src)
                                 (map (map (seed_cast c)) (drop (ncols src - l) (rows (transpose_mat src)))
                                  @ map (map (output_cast c)) (rows out))))\<rparr>)
             else Some (Inl RuntimeError))
          else Some (Inr \<lparr>model_calls =
                             [(Mat (nrows src) (drop (ncols src - l) (rows (transpose_mat src))),
                               prediction_timesteps c a)],
                           tmp_pred_made = True,
                           saved = Some (batch_id a, transpose_mat out)\<rparr>))"
  unfolding main_tail_forecast [OF ds size pair src] forecast_eq [OF l]
  by (simp split: sum.splits)

lemma forecast_run:
  assumes "1 \<le> l" "l \<le> nrows d" "0 \<le> n" "model_total fm (ncols d)"
  shows "\<exists>m. forecast fm cast_seed cast_out d (int l) n pair =
               Inr (m, [(Mat (ncols d) (drop (nrows d - l) (rows d)), n)])
           \<and> ncols m = ncols d
           \<and> nrows m = (if pair \<in> {8, 9} then l + nat n else nat n)"
proof -
  define seed where "seed = Mat (ncols d) (drop (nrows d - l) (rows d))"
  have ns: "nrows seed = l" "ncols seed = ncols d"
    using assms(2) by (simp_all add: seed_def nrows_def)
  from assms(4) [unfolded model_total_def, rule_format, of seed n] ns assms(3)
  obtain out where out: "fm seed n = Inr out" "nrows out = nat n" "ncols out = ncols d" by auto
  show ?thesis
    unfolding forecast_eq [OF assms(1)] using out ns
    by (simp add: seed_def nrows_def)
qed

lemma transposed_prefix:
  assumes "length a = l"
  shows "cols_slice (transpose_mat (Mat c (a @ b))) 0 (int l) = transpose_mat (Mat c a)"
  using assms by (simp add: cols_slice_0 transpose_mat_def nrows_def take_map)

subsection \<open>The model is consulted at the history windows only\<close>

lemma window_eq: "window d l h i = Mat (ncols d) (take l (drop (i * h) (rows d)))"
  using window_rows [of d l h i] by (simp add: window_def rows_slice_def)

lemma loop_body_raises:
  assumes "fm (window d l h (start_idx st)) (int h) = Inl e"
  shows "loop_body fm d (int l) (int h) st = Inl e"
  using assms by (simp add: loop_body_def window_def Let_def)

lemma loop_body_cong:
  assumes "fm (window d l h (start_idx st)) (int h) = fm' (window d l h (start_idx st)) (int h)"
  shows "loop_body fm d (int l) (int h) st = loop_body fm' d (int l) (int h) st"
  using assms by (simp add: loop_body_def window_def Let_def)

lemma rollout_loop_cong:
  assumes "\<And>i. start_idx st \<le> i \<Longrightarrow> i < start_idx st + fuel \<Longrightarrow>
             fm (window d l h i) (int h) = fm' (window d l h i) (int h)"
  shows "rollout_loop fuel fm d (int l) (int h) n st = rollout_loop fuel fm' d (int l) (int h) n st"
  using assms
proof (induction fuel arbitrary: st)
  case 0
  then show ?case by simp
next
  case (Suc fuel)
  have body: "loop_body fm d (int l) (int h) st = loop_body fm' d (int l) (int h) st"
    by (rule loop_body_cong) (rule Suc.prems, simp_all)
  show ?case
  proof (cases "loop_body fm' d (int l) (int h) st")
    case (Inl e)
    then show ?thesis using body by simp
  next
    case (Inr st2)
    have s2: "start_idx st2 = start_idx st + 1"
      using loop_body_calls(1) [OF Inr] .
    have "rollout_loop fuel fm d (int l) (int h) n st2 = rollout_loop fuel fm' d (int l) (int h) n st2"
      by (rule Suc.IH) (rule Suc.prems, simp_all add: s2)
    then show ?thesis using body Inr by simp
  qed
qed

lemma reconstruct_cong:
  assumes "\<And>i. i < fuel \<Longrightarrow> fm (window d l h i) (int h) = fm' (window d l h i) (int h)"
  shows "reconstruct fuel fm d (int l) (int h) n = reconstruct fuel fm' d (int l) (int h) n"
proof -
  have "rollout_loop fuel fm d (int l) (int h) n rollout_init =
        rollout_loop fuel fm' d (int l) (int h) n rollout_init"
    by (rule rollout_loop_cong) (rule assms, simp add: rollout_init_def)
  then show ?thesis by (simp add: reconstruct_def)
qed

lemma map_upt_const:
  assumes "\<And>i. i < k \<Longrightarrow> f i = v"
  shows "map f [0..<k] = replicate k v"
  using assms by (intro nth_equalityI) simp_all

subsection \<open>Runs that raise, and a run that never returns\<close>

lemma squeeze_breaks_lag_one:
  "reconstruct 1 example_model example_history 1 2 4 = Some (Inl ValueError)"
  by code_simp

lemma squeeze_breaks_one_channel:
  "reconstruct 1 example_model (Mat 1 [[1], [2], [3], [4]]) 2 2 4 = Some (Inl ValueError)"
  by code_simp

lemma horizon_zero_body:
  assumes "output_mat_full st = Some acc" "ncols acc = 3" "nrows acc = 2" "start_idx st \<noteq> 0"
  shows "\<exists>st2 acc2. loop_body example_model example_history 3 0 st = Inr st2
           \<and> output_mat_full st2 = Some acc2 \<and> ncols acc2 = 3 \<and> nrows acc2 = 2
           \<and> start_idx st2 \<noteq> 0"
  using assms
  by (simp add: loop_body_def Let_def example_model_def example_history_def transpose_mat_def
        nrows_def rows_slice_def upt_conv_Cons)

lemma horizon_zero_loop:
  assumes "output_mat_full st = Some acc" "ncols acc = 3" "nrows acc = 2" "start_idx st \<noteq> 0"
  shows "rollout_loop fuel example_model example_history 3 0 10 st = None"
  using assms
proof (induction fuel arbitrary: st acc)
  case 0
  then show ?case by (simp add: loop_cond_def)
next
  case (Suc fuel)
  from horizon_zero_body [OF Suc.prems] obtain st2 acc2 where
    "loop_body example_model example_history 3 0 st = Inr st2"
    "output_mat_full st2 = Some acc2" "ncols acc2 = 3" "nrows acc2 = 2" "start_idx st2 \<noteq> 0"
    by blast
  then show ?case using Suc.IH [of st2 acc2] Suc.prems(1,2) by (simp add: loop_cond_def)
qed

lemma horizon_zero_never_returns:
  "reconstruct fuel example_model example_history 3 0 10 = None"
proof (cases fuel)
  case 0
  then show ?thesis by (simp add: reconstruct_def rollout_init_def loop_cond_def)
next
  case (Suc k)
  have "\<exists>st1 acc1. loop_body example_model example_history 3 0 rollout_init = Inr st1
           \<and> output_mat_full st1 = Some acc1 \<and> ncols acc1 = 3 \<and> nrows acc1 = 2
           \<and> start_idx st1 \<noteq> 0"
    by (simp add: loop_body_def Let_def example_model_def example_history_def transpose_mat_def
          nrows_def rollout_init_def rows_slice_def py_slice_def py_bound_def squeeze_def upt_conv_Cons)
  then obtain st1 acc1 where
    "loop_body example_model example_history 3 0 rollout_init = Inr st1"
    "output_mat_full st1 = Some acc1" "ncols acc1 = 3" "nrows acc1 = 2" "start_idx st1 \<noteq> 0"
    by blast
  then show ?thesis
    using horizon_zero_loop [of st1 acc1 k]
    by (simp add: reconstruct_def Suc loop_cond_def rollout_init_def)
qed

text \<open>
  When \<^verbatim>\<open>torch.cat\<close> converts the seed, the prefix of the saved matrix is the converted
  seed: here the seed 21, 23, 25 of the first channel is saved as 20, 22, 24.
\<close>

lemma torch_cat_converts_seed:
  "main_tail 0 rounding_collaborators example_config (example_args 8) =
     Some (Inr \<lparr>model_calls = [(Mat 2 [[21, 22], [23, 24], [25, 26]], 2)], tmp_pred_made = True,
                saved = Some (0, Mat 5 [[20, 22, 24, 7, 7], [22, 24, 26, 7, 7]])\<rparr>)"
  by code_simp

section \<open>The claims\<close>

subsection \<open>C1: length of the reconstruction and its seed prefix\<close>

text \<open>
  C1, as amended. The rollout returns a channel-major matrix: its columns are the
  timesteps. For a lag of at least 2, at least 2 channels, a horizon and an \<open>n\<close> of at
  least 1, a history that covers every window and a model that answers a full window
  with \<open>h\<close> rows, the reconstruction returns a matrix of exactly \<open>n\<close> timesteps (columns)
  and as many rows as the history has channels. Its first \<open>min l n\<close> timesteps are the
  first \<open>min l n\<close> timesteps of the seed window \<^verbatim>\<open>data_mat[0:lag, :]\<close>, raw; when
  \<open>l \<le> n\<close> they are the whole seed window. (A lag of 1 or a single channel makes
  \<^verbatim>\<open>squeeze()\<close> drop a dimension; the statement leaves those runs out.)
\<close>

theorem C1_reconstruction_length_and_seed:
  assumes "2 \<le> l" "1 \<le> h" "1 \<le> n" "2 \<le> ncols d"
    and "model_ok fm l (ncols d)" "history_covers d l h n" "recon_calls l h n \<le> fuel"
  shows "\<exists>out cs. reconstruct fuel fm d (int l) (int h) (int n) = Some (Inr (out, cs))
           \<and> ncols out = n \<and> nrows out = ncols d
           \<and> cols_slice out 0 (int (min l n)) =
               cols_slice (transpose_mat (rows_slice d 0 (int l))) 0 (int (min l n))
           \<and> (l \<le> n \<longrightarrow> cols_slice out 0 (int l) = transpose_mat (rows_slice d 0 (int l)))"
proof -
  have h: "0 < h" using assms(2) by simp
  have ld: "l \<le> nrows d" using assms(6) by (simp add: history_covers_def)
  from reconstruct_run [OF h assms(1) ld assms(4) steps_ok_covered [OF h assms(5,6)] assms(7)]
  obtain acc where acc:
    "reconstruct fuel fm d (int l) (int h) (int n) =
       Some (Inr (cols_slice acc 0 (int n), map (\<lambda>i. (window d l h i, int h)) [0..<recon_calls l h n]))"
    "nrows acc = ncols d" "ncols acc = l + recon_calls l h n * h" "wf_mat acc"
    "map (take l) (rows acc) = rows (transpose_mat (window d l h 0))"
    by blast
  define out where "out = cols_slice acc 0 (int n)"
  define seedT where "seedT = transpose_mat (window d l h 0)"
  have nc: "n \<le> ncols acc" using recon_calls_covers [OF h, of n l] acc(3) by simp
  have c: "ncols out = n" using nc by (simp add: out_def cols_slice_0)
  have r: "nrows out = ncols d" using acc(2) by (simp add: out_def cols_slice_0 nrows_def)
  have wl: "nrows (window d l h 0) = l" using ld by (simp add: window_nrows)
  have pre: "map (take m) (rows out) = map (take m) (rows seedT)" if "m \<le> l" "m \<le> n" for m
  proof -
    have "map (take m) (rows out) = map (take m) (rows acc)"
      using that by (simp add: out_def cols_slice_0 min_def)
    also have "\<dots> = map (take m) (map (take l) (rows acc))"
      using that by (simp add: min_def)
    finally show ?thesis using acc(5) by (simp add: seedT_def)
  qed
  have sl: "cols_slice out 0 (int m) = cols_slice seedT 0 (int m)" if "m \<le> l" "m \<le> n" for m
    using pre [OF that] that c wl by (simp add: cols_slice_0 seedT_def)
  have full: "cols_slice seedT 0 (int l) = seedT"
  proof -
    have "map (take l) (rows seedT) = rows seedT"
      using wf_transpose [of "window d l h 0"] wl by (simp add: seedT_def wf_mat_def map_idI)
    moreover have "ncols seedT = l" using wl by (simp add: seedT_def)
    ultimately have "cols_slice seedT 0 (int l) = Mat (ncols seedT) (rows seedT)"
      by (simp add: cols_slice_0)
    then show ?thesis by simp
  qed
  have "cols_slice out 0 (int (min l n)) = cols_slice seedT 0 (int (min l n))"
    by (rule sl) simp_all
  moreover have "l \<le> n \<longrightarrow> cols_slice out 0 (int l) = seedT"
    using sl [of l] full by simp
  ultimately show ?thesis
    using acc(1) c r unfolding out_def seedT_def seed_is_window [of d l h]
    by (intro exI [of _ "cols_slice acc 0 (int n)"] exI) simp
qed

text \<open>The hypotheses of C1 hold for lag 3, horizon 2 and 7 timesteps on the example.\<close>

theorem C1_witness:
  "\<exists>out cs. reconstruct 2 example_model example_history (int 3) (int 2) (int 7) = Some (Inr (out, cs))
     \<and> ncols out = 7 \<and> nrows out = ncols example_history
     \<and> cols_slice out 0 (int (min 3 7)) =
         cols_slice (transpose_mat (rows_slice example_history 0 (int 3))) 0 (int (min 3 7))
     \<and> cols_slice out 0 (int 3) = transpose_mat (rows_slice example_history 0 (int 3))"
proof -
  have m: "model_ok example_model 3 (ncols example_history)"
    by (simp add: model_ok_def example_model_def nrows_def)
  have c: "history_covers example_history 3 2 7"
    by (simp add: history_covers_def recon_calls_def example_history_def nrows_def)
  have f: "recon_calls 3 2 7 \<le> 2" by (simp add: recon_calls_def)
  have n: "2 \<le> ncols example_history" by (simp add: example_history_def)
  have a: "(2::nat) \<le> 3" "(1::nat) \<le> 2" "(1::nat) \<le> 7" by simp_all
  show ?thesis
    using C1_reconstruction_length_and_seed [OF a n m c f] by simp
qed

text \<open>
  C1 as stated fails when \<open>n\<close> is below the lag: with lag 3, horizon 2 and \<open>n = 1\<close> the
  rollout returns one timestep, so its first 3 timesteps are not the seed window.
\<close>

theorem C1_counterexample:
  "reconstruct 1 example_model example_history 3 2 1 =
     Some (Inr (Mat 1 [[1], [2]], [(Mat 2 [[1, 2], [3, 4], [5, 6]], 2)]))
   \<and> cols_slice (Mat 1 [[1], [2]]) 0 3 \<noteq> transpose_mat (rows_slice example_history 0 3)"
  by code_simp

subsection \<open>C2: termination and the number of model calls\<close>

text \<open>
  C2, as amended. For a horizon of at least 1 (lag and channels at least 2, a history
  that covers every window, a model that answers a full window with \<open>h\<close> rows), the loop
  returns within \<open>max 1 (ceil ((n - l) / h))\<close> passes and calls the model exactly that
  many times: the seed's \<open>l\<close> timesteps count towards \<open>n\<close>, and the first pass always
  runs. (With a horizon of 0 the loop need not return: \<open>horizon_zero_never_returns\<close>.)
\<close>

theorem C2_call_count:
  assumes "2 \<le> l" "1 \<le> h" "2 \<le> ncols d"
    and "model_ok fm l (ncols d)" "history_covers d l h n" "max 1 (ceil_div (n - l) h) \<le> fuel"
  shows "calls_made (reconstruct fuel fm d (int l) (int h) (int n)) = Some (max 1 (ceil_div (n - l) h))"
proof -
  have h: "0 < h" using assms(2) by simp
  have ld: "l \<le> nrows d" using assms(5) by (simp add: history_covers_def)
  have f: "recon_calls l h n \<le> fuel" using assms(6) by (simp add: recon_calls_ceil [OF h])
  from reconstruct_run [OF h assms(1) ld assms(3) steps_ok_covered [OF h assms(4,5)] f]
  show ?thesis by (auto simp: calls_made_def recon_calls_ceil [OF h])
qed

text \<open>The hypotheses of C2 hold for lag 3, horizon 2 and 7 timesteps: 2 calls.\<close>

theorem C2_witness:
  "calls_made (reconstruct 2 example_model example_history (int 3) (int 2) (int 7))
     = Some (max 1 (ceil_div (7 - 3) 2))"
proof -
  have m: "model_ok example_model 3 (ncols example_history)"
    by (simp add: model_ok_def example_model_def nrows_def)
  have c: "history_covers example_history 3 2 7"
    by (simp add: history_covers_def recon_calls_def example_history_def nrows_def)
  have f: "max 1 (ceil_div (7 - 3) 2) \<le> 2" by (simp add: ceil_div_def)
  have n: "2 \<le> ncols example_history" by (simp add: example_history_def)
  show ?thesis
    by (rule C2_call_count [OF _ _ n m c f]) simp_all
qed

text \<open>
  C2 as stated fails: with lag 3, horizon 2 and \<open>n = 4\<close> the loop calls the model once,
  and \<open>ceil (4 / 2) = 2\<close>.
\<close>

theorem C2_counterexample:
  "calls_made (reconstruct 5 example_model example_history 3 2 4) = Some 1 \<and> ceil_div 4 2 = 2"
  by code_simp

subsection \<open>C3: forecast mode makes one call for exactly \<open>n\<close> timesteps\<close>

text \<open>
  C3, as amended. In forecast mode (every pair id but 2 and 4, lines 190 to 220) the
  run calls the model exactly once, on the last \<open>l\<close> timesteps of the loaded history,
  asking for exactly \<open>n\<close> timesteps, whatever the horizon: \<open>n\<close> is the number of
  prediction timesteps, less \<open>l\<close> for pair ids 8 and 9. When the history has at least
  \<open>l\<close> timesteps and the model answers with \<open>n\<close> rows of the history's channels, the
  matrix handed on is channel-major. Without the initial-condition flag it is the
  transpose of the model's answer and has exactly \<open>n\<close> columns. With the flag (pair ids
  8 and 9) it is the transpose of the seed window followed by the model's answer, both as
  \<^verbatim>\<open>torch.cat\<close> converts them: it has \<open>l + n\<close> columns, and its first \<open>l\<close> columns are
  the converted seed window.
\<close>

theorem C3_forecast_single_call:
  assumes ds: "ds_name cfg \<in> set [''ODE_Lorenz'', ''PDE_KS'', ''KS_Official'', ''Lorenz_Official'']"
    and size: "ds_size cfg = int l # x # horizon # rest" and l: "1 \<le> l"
    and pair: "pair_id a \<notin> {2, 4}"
    and src: "history_source c a = Some src" "l \<le> ncols src"
    and n: "n = (if pair_id a \<in> {8, 9} then prediction_timesteps c a - int l
                 else prediction_timesteps c a)"
    and call: "forecast_model c a
                 (Mat (nrows src) (drop (ncols src - l) (rows (transpose_mat src)))) n = Inr out"
    and out: "nrows out = nat n" "ncols out = nrows src"
  shows "\<exists>m. main_tail fuel c cfg a =
               Some (Inr \<lparr>model_calls =
                            [(Mat (nrows src) (drop (ncols src - l) (rows (transpose_mat src))), n)],
                          tmp_pred_made = True,
                          saved = Some (batch_id a, m)\<rparr>)
           \<and> m = transpose_mat
                   (if pair_id a \<in> {8, 9}
                    then Mat (nrows src)
                           (map (map (seed_cast c)) (drop (ncols src - l) (rows (transpose_mat src)))
                            @ map (map (output_cast c)) (rows out))
                    else out)
           \<and> nrows m = nrows src
           \<and> ncols m = (if pair_id a \<in> {8, 9} then l + nat n else nat n)
           \<and> (pair_id a \<in> {8, 9} \<longrightarrow>
                cols_slice m 0 (int l) =
                  transpose_mat (Mat (nrows src)
                    (map (map (seed_cast c)) (drop (ncols src - l) (rows (transpose_mat src))))))"
proof -
  define seed where "seed = drop (ncols src - l) (rows (transpose_mat src))"
  have len: "length seed = l" using src(2) by (simp add: seed_def transpose_mat_def)
  define m where "m = transpose_mat
                   (if pair_id a \<in> {8, 9}
                    then Mat (nrows src) (map (map (seed_cast c)) seed @ map (map (output_cast c)) (rows out))
                    else out)"
  have run: "main_tail fuel c cfg a =
               Some (Inr \<lparr>model_calls = [(Mat (nrows src) seed, n)], tmp_pred_made = True,
                          saved = Some (batch_id a, m)\<rparr>)"
  proof (cases "pair_id a \<in> {8, 9}")
    case True
    then have "n = prediction_timesteps c a - int l" using n by simp
    then show ?thesis
      using main_tail_forecast [OF ds size pair src(1), of fuel] call out(2) True
      by (simp add: m_def seed_def forecast_def cat0_def
            rows_from_last [OF l, of "transpose_mat src"])
  next
    case False
    then have "n = prediction_timesteps c a" using n by simp
    then show ?thesis
      using main_tail_forecast [OF ds size pair src(1), of fuel] call False
      by (simp add: m_def seed_def forecast_def
            rows_from_last [OF l, of "transpose_mat src"])
  qed
  have r: "nrows m = nrows src" using out(2) by (simp add: m_def)
  have k: "ncols m = (if pair_id a \<in> {8, 9} then l + nat n else nat n)"
    using out(1) len by (simp add: m_def nrows_def)
  have p: "cols_slice m 0 (int l) = transpose_mat (Mat (nrows src) (map (map (seed_cast c)) seed))"
    if "pair_id a \<in> {8, 9}"
    using that transposed_prefix [of "map (map (seed_cast c)) seed" l "nrows src"
            "map (map (output_cast c)) (rows out)"] len
    by (simp add: m_def)
  show ?thesis
    using run r k p unfolding m_def seed_def by (intro exI [of _ m, unfolded m_def seed_def]) simp
qed

text \<open>
  The specification's scenario for pair id 1, lag 4 and horizon 20 with 4 prediction
  timesteps (validation): one call for 4 timesteps, 4 columns. And pair id 8 with lag 3
  and 5 prediction timesteps: one call for 2 timesteps, 5 columns that begin with the
  seed.
\<close>

theorem C3_witness:
  "(\<exists>m. main_tail 0 example_collaborators scenario_config ((example_args 1)\<lparr>validation := True\<rparr>) =
          Some (Inr \<lparr>model_calls = [(Mat 2 [[5, 6], [7, 8], [9, 10], [11, 12]], 4)],
                     tmp_pred_made = True, saved = Some (0, m)\<rparr>)
        \<and> m = Mat 4 [[7, 7, 7, 7], [7, 7, 7, 7]] \<and> nrows m = 2 \<and> ncols m = 4)
   \<and> (\<exists>m. main_tail 0 example_collaborators example_config (example_args 8) =
          Some (Inr \<lparr>model_calls = [(Mat 2 [[21, 22], [23, 24], [25, 26]], 2)],
                     tmp_pred_made = True, saved = Some (0, m)\<rparr>)
        \<and> m = Mat 5 [[21, 23, 25, 7, 7], [22, 24, 26, 7, 7]] \<and> nrows m = 2 \<and> ncols m = 5
        \<and> cols_slice m 0 (int 3) = Mat 3 [[21, 23, 25], [22, 24, 26]])"
proof -
  let ?a1 = "(example_args 1)\<lparr>validation := True\<rparr>"
  have ds1: "ds_name scenario_config \<in> set [''ODE_Lorenz'', ''PDE_KS'', ''KS_Official'', ''Lorenz_Official'']"
    by (simp add: scenario_config_def)
  have sz1: "ds_size scenario_config = int 4 # 0 # 20 # []" by (simp add: scenario_config_def)
  have l1: "(1::nat) \<le> 4" by simp
  have p1: "pair_id ?a1 \<notin> {2, 4}" by (simp add: example_args_def)
  have s1: "history_source example_collaborators ?a1 = Some example_train" "4 \<le> ncols example_train"
    by (simp_all add: history_source_def train_mats_def example_collaborators_def example_args_def
          example_train_def)
  have n1: "(4::int) = (if pair_id ?a1 \<in> {8, 9}
                        then prediction_timesteps example_collaborators ?a1 - int 4
                        else prediction_timesteps example_collaborators ?a1)"
    by (simp add: prediction_timesteps_def example_collaborators_def example_args_def)
  have c1: "forecast_model example_collaborators ?a1
              (Mat (nrows example_train) (drop (ncols example_train - 4) (rows (transpose_mat example_train)))) 4
            = Inr (Mat 2 [[7, 7], [7, 7], [7, 7], [7, 7]])"
    by code_simp
  have o1: "nrows (Mat 2 [[7, 7], [7, 7], [7, 7], [7, 7 :: int]]) = nat 4"
           "ncols (Mat 2 [[7, 7], [7, 7], [7, 7], [7, 7 :: int]]) = nrows example_train"
    by (simp_all add: nrows_def example_train_def)
  have r1: "main_tail 0 example_collaborators scenario_config ?a1 =
          Some (Inr \<lparr>model_calls = [(Mat 2 [[5, 6], [7, 8], [9, 10], [11, 12]], 4)],
                     tmp_pred_made = True, saved = Some (0, Mat 4 [[7, 7, 7, 7], [7, 7, 7, 7]])\<rparr>)"
    by code_simp
  have ds2: "ds_name example_config \<in> set [''ODE_Lorenz'', ''PDE_KS'', ''KS_Official'', ''Lorenz_Official'']"
    by (simp add: example_config_def)
  have sz2: "ds_size example_config = int 3 # 0 # 2 # []" by (simp add: example_config_def)
  have l2: "(1::nat) \<le> 3" by simp
  have p2: "pair_id (example_args 8) \<notin> {2, 4}" by (simp add: example_args_def)
  have s2: "history_source example_collaborators (example_args 8) = Some example_init"
           "3 \<le> ncols example_init"
    by (simp_all add: history_source_def init_mat_def example_collaborators_def example_args_def
          example_init_def)
  have n2: "(2::int) = (if pair_id (example_args 8) \<in> {8, 9}
                        then prediction_timesteps example_collaborators (example_args 8) - int 3
                        else prediction_timesteps example_collaborators (example_args 8))"
    by (simp add: prediction_timesteps_def example_collaborators_def example_args_def)
  have c2: "forecast_model example_collaborators (example_args 8)
              (Mat (nrows example_init) (drop (ncols example_init - 3) (rows (transpose_mat example_init)))) 2
            = Inr (Mat 2 [[7, 7], [7, 7]])"
    by code_simp
  have o2: "nrows (Mat 2 [[7, 7], [7, 7 :: int]]) = nat 2"
           "ncols (Mat 2 [[7, 7], [7, 7 :: int]]) = nrows example_init"
    by (simp_all add: nrows_def example_init_def)
  have r2: "main_tail 0 example_collaborators example_config (example_args 8) =
          Some (Inr \<lparr>model_calls = [(Mat 2 [[21, 22], [23, 24], [25, 26]], 2)],
                     tmp_pred_made = True,
                     saved = Some (0, Mat 5 [[21, 23, 25, 7, 7], [22, 24, 26, 7, 7]])\<rparr>)"
    by code_simp
  have r3: "cols_slice (Mat 5 [[21, 23, 25, 7, 7], [22, 24, 26, 7, 7 :: int]]) 0 (int 3)
            = Mat 3 [[21, 23, 25], [22, 24, 26]]"
    by code_simp
  have runs: ?thesis using r1 r2 r3 by (simp add: nrows_def)
  show ?thesis
    using C3_forecast_single_call [OF ds1 sz1 l1 p1 s1 n1 c1 o1, of 0]
          C3_forecast_single_call [OF ds2 sz2 l2 p2 s2 n2 c2 o2, of 0]
    by - (rule runs)
qed

text \<open>
  C3 as stated fails: for pair id 1 and 5 prediction timesteps the matrix that lines 157
  to 220 hand on has 2 rows, one per channel, not 5.
\<close>

theorem C3_counterexample:
  "select_and_run 0 example_collaborators (example_args 1) 3 2 =
     Some (Inr (Mat 5 [[7, 7, 7, 7, 7], [7, 7, 7, 7, 7]], [(Mat 2 [[7, 8], [9, 10], [11, 12]], 5)]))
   \<and> nrows (Mat 5 [[7, 7, 7, 7, 7], [7, 7, 7, 7, 7 :: int]]) \<noteq> 5"
  by code_simp

subsection \<open>C4: every window comes from the history\<close>



subsection \<open>C5: what the trim removes\<close>

text \<open>
  C5, as amended. Under the hypotheses of C1, the accumulator before the trim has
  \<open>l + k * h\<close> timesteps, \<open>k\<close> the number of model calls. If \<open>n - l\<close> is a positive
  multiple of \<open>h\<close>, the accumulator already has \<open>n\<close> timesteps and the trim removes
  nothing. If \<open>l \<le> n\<close>, the trim keeps the first \<open>l + (k - 1) * h\<close> timesteps, the seed
  and the output of every call but the last: it removes output of the last call only.
\<close>

theorem C5_trim_of_last_call:
  assumes "2 \<le> l" "1 \<le> h" "2 \<le> ncols d"
    and "model_ok fm l (ncols d)" "history_covers d l h n" "recon_calls l h n \<le> fuel"
  shows "\<exists>acc out cs.
           accumulator fuel fm d (int l) (int h) (int n) = Some acc
         \<and> reconstruct fuel fm d (int l) (int h) (int n) = Some (Inr (out, cs))
         \<and> out = cols_slice acc 0 (int n)
         \<and> ncols acc = l + length cs * h
         \<and> (l + h \<le> n \<and> h dvd (n - l) \<longrightarrow> ncols acc = n \<and> out = acc)
         \<and> (l \<le> n \<longrightarrow> l + (length cs - 1) * h \<le> n
               \<and> cols_slice out 0 (int (l + (length cs - 1) * h)) =
                   cols_slice acc 0 (int (l + (length cs - 1) * h)))"
proof -
  have h: "0 < h" using assms(2) by simp
  have ld: "l \<le> nrows d" using assms(5) by (simp add: history_covers_def)
  define k where "k = recon_calls l h n"
  define cs where "cs = map (\<lambda>i. (window d l h i, int h)) [0..<k]"
  from reconstruct_run [OF h assms(1) ld assms(3) steps_ok_covered [OF h assms(4,5)] assms(6)]
  obtain acc where acc:
    "accumulator fuel fm d (int l) (int h) (int n) = Some acc"
    "reconstruct fuel fm d (int l) (int h) (int n) = Some (Inr (cols_slice acc 0 (int n), cs))"
    "ncols acc = l + k * h" "wf_mat acc"
    unfolding k_def cs_def by blast
  have len: "length cs = k" by (simp add: cs_def)
  have exact: "ncols acc = n \<and> cols_slice acc 0 (int n) = acc" if "l + h \<le> n" "h dvd (n - l)"
  proof -
    from that(2) obtain j where j: "n - l = h * j" by (auto simp: dvd_def)
    have "j \<noteq> 0" using that(1) h j by (cases j) auto
    then obtain j' where j': "j = Suc j'" by (cases j) auto
    have n: "n = l + j * h" using that(1) j by (simp add: mult.commute)
    have "j = recon_calls l h n"
    proof (rule recon_calls_unique [OF h])
      show "1 \<le> j" using \<open>j \<noteq> 0\<close> by simp
      show "j = 1 \<or> l + (j - 1) * h < n" using n h j' by simp
      show "n \<le> l + j * h" using n by simp
    qed
    then have "ncols acc = n" using acc(3) n by (simp add: k_def)
    then show ?thesis using cols_slice_wf [OF acc(4), of n] by simp
  qed
  have keep: "l + (k - 1) * h \<le> n
      \<and> cols_slice (cols_slice acc 0 (int n)) 0 (int (l + (k - 1) * h)) =
          cols_slice acc 0 (int (l + (k - 1) * h))" if "l \<le> n"
  proof -
    have "l + (k - 1) * h \<le> n"
      using recon_calls_min [OF h, of l n] that by (auto simp: k_def)
    then show ?thesis using cols_slice_twice [of "l + (k - 1) * h" n acc] by blast
  qed
  show ?thesis
    using acc(1,2,3) exact keep len
    by (intro exI [of _ acc] exI [of _ "cols_slice acc 0 (int n)"] exI [of _ cs]) simp
qed

text \<open>Lag 3, horizon 2 and 7 timesteps: two calls, 7 timesteps, nothing trimmed.\<close>

theorem C5_witness:
  "\<exists>acc out cs.
     accumulator 2 example_model example_history (int 3) (int 2) (int 7) = Some acc
   \<and> reconstruct 2 example_model example_history (int 3) (int 2) (int 7) = Some (Inr (out, cs))
   \<and> out = cols_slice acc 0 (int 7)
   \<and> ncols acc = 3 + length cs * 2
   \<and> ncols acc = 7 \<and> out = acc
   \<and> 3 + (length cs - 1) * 2 \<le> 7
   \<and> cols_slice out 0 (int (3 + (length cs - 1) * 2)) = cols_slice acc 0 (int (3 + (length cs - 1) * 2))"
proof -
  have m: "model_ok example_model 3 (ncols example_history)"
    by (simp add: model_ok_def example_model_def nrows_def)
  have c: "history_covers example_history 3 2 7"
    by (simp add: history_covers_def recon_calls_def example_history_def nrows_def)
  have f: "recon_calls 3 2 7 \<le> 2" by (simp add: recon_calls_def)
  have n: "2 \<le> ncols example_history" by (simp add: example_history_def)
  have a: "(2::nat) \<le> 3" "(1::nat) \<le> 2" by simp_all
  show ?thesis
    using C5_trim_of_last_call [OF a n m c f] by simp
qed

text \<open>
  C5 as stated fails: 4 is divisible by the horizon 2, and with lag 3 the accumulator
  before the trim has 5 timesteps, not 4.
\<close>

theorem C5_counterexample:
  "(4::int) mod 2 = 0
   \<and> accumulator 1 example_model example_history 3 2 4 = Some (Mat 5 [[1, 3, 5, 7, 7], [2, 4, 6, 7, 7]])
   \<and> ncols (Mat 5 [[1, 3, 5, 7, 7], [2, 4, 6, 7, 7 :: int]]) \<noteq> 4"
  by code_simp

subsection \<open>C6: a history that is too short\<close>

text \<open>
  C6, as amended. The rollout never checks the length of the history. The window of
  pass \<open>i\<close> is the rows of the history that exist from row \<open>i * h\<close> on, at most \<open>l\<close> of
  them: \<open>min l (T - i * h)\<close> rows for a history of \<open>T\<close> rows, neither padded nor
  refused. When the model answers a window of any length (lag and channels at least 2,
  a history of at least \<open>l\<close> rows, horizon at least 1), the rollout returns \<open>n\<close>
  timesteps whatever the length of the history.
\<close>

theorem C6_short_history_is_not_detected:
  assumes "2 \<le> l" "1 \<le> h" "l \<le> nrows d" "2 \<le> ncols d"
    and "model_total fm (ncols d)" "recon_calls l h n \<le> fuel"
  shows "\<exists>out cs. reconstruct fuel fm d (int l) (int h) (int n) = Some (Inr (out, cs))
           \<and> ncols out = n
           \<and> map fst cs = map (\<lambda>i. Mat (ncols d) (take l (drop (i * h) (rows d)))) [0..<recon_calls l h n]
           \<and> map (\<lambda>c. nrows (fst c)) cs = map (\<lambda>i. min l (nrows d - i * h)) [0..<recon_calls l h n]"
proof -
  have h: "0 < h" using assms(2) by simp
  from reconstruct_run [OF h assms(1) assms(3) assms(4) steps_ok_total [OF assms(5)] assms(6)]
  obtain acc where acc:
    "reconstruct fuel fm d (int l) (int h) (int n) =
       Some (Inr (cols_slice acc 0 (int n), map (\<lambda>i. (window d l h i, int h)) [0..<recon_calls l h n]))"
    "ncols acc = l + recon_calls l h n * h"
    by blast
  have "n \<le> ncols acc" using recon_calls_covers [OF h, of n l] acc(2) by simp
  then have c: "ncols (cols_slice acc 0 (int n)) = n" by (simp add: cols_slice_0)
  have w: "window d l h i = Mat (ncols d) (take l (drop (i * h) (rows d)))" for i
    using window_rows [of d l h i] by (simp add: window_def rows_slice_def)
  define cs where "cs = map (\<lambda>i. (window d l h i, int h)) [0..<recon_calls l h n]"
  have f: "map fst cs = map (\<lambda>i. Mat (ncols d) (take l (drop (i * h) (rows d)))) [0..<recon_calls l h n]"
    by (simp add: cs_def comp_def w)
  have r: "map (\<lambda>c. nrows (fst c)) cs = map (\<lambda>i. min l (nrows d - i * h)) [0..<recon_calls l h n]"
    by (simp add: cs_def comp_def window_nrows)
  show ?thesis
    using acc(1) c f r unfolding cs_def [symmetric]
    by (intro exI [of _ "cols_slice acc 0 (int n)"] exI [of _ cs]) simp
qed

text \<open>A history of 6 rows, lag 3, horizon 2, 9 timesteps: the third window has 2 rows.\<close>

theorem C6_witness:
  "\<exists>out cs. reconstruct 3 example_model example_history (int 3) (int 2) (int 9) = Some (Inr (out, cs))
     \<and> ncols out = 9
     \<and> map fst cs = [Mat 2 [[1, 2], [3, 4], [5, 6]], Mat 2 [[5, 6], [7, 8], [9, 10]], Mat 2 [[9, 10], [11, 12]]]
     \<and> map (\<lambda>c. nrows (fst c)) cs = [3, 3, 2]"
proof -
  have m: "model_total example_model (ncols example_history)"
    by (simp add: model_total_def example_model_def nrows_def)
  have f: "recon_calls 3 2 9 \<le> 3" by (simp add: recon_calls_def)
  have n: "2 \<le> ncols example_history" "3 \<le> nrows example_history"
    by (simp_all add: example_history_def nrows_def)
  have a: "(2::nat) \<le> 3" "(1::nat) \<le> 2" by simp_all
  have r1: "map (\<lambda>i. Mat (ncols example_history) (take 3 (drop (i * 2) (rows example_history))))
              [0..<recon_calls 3 2 9]
            = [Mat 2 [[1, 2], [3, 4], [5, 6]], Mat 2 [[5, 6], [7, 8], [9, 10]], Mat 2 [[9, 10], [11, 12]]]"
    by code_simp
  have r2: "map (\<lambda>i. min 3 (nrows example_history - i * 2)) [0..<recon_calls 3 2 9] = [3, 3, 2]"
    by code_simp
  show ?thesis
    by (rule C6_short_history_is_not_detected [OF a n(2) n(1) m f, unfolded r1 r2])
qed

text \<open>
  C6 as stated fails: the history has 6 rows, the third window would end at row 7, and
  the rollout returns a matrix; the third model call received a window of 2 rows.
\<close>

theorem C6_counterexample:
  "int (nrows example_history) < 2 * 2 + 3
   \<and> reconstruct 3 example_model example_history 3 2 9 =
       Some (Inr (Mat 9 [[1, 3, 5, 7, 7, 7, 7, 7, 7], [2, 4, 6, 7, 7, 7, 7, 7, 7]],
                  [(Mat 2 [[1, 2], [3, 4], [5, 6]], 2),
                   (Mat 2 [[5, 6], [7, 8], [9, 10]], 2),
                   (Mat 2 [[9, 10], [11, 12]], 2)]))"
  by code_simp

subsection \<open>C7: pair ids outside both sets\<close>

text \<open>
  C7. For a rollout dataset, a pair id that is none of 2, 4, 8 and 9, and a lag of at
  least 1, the run is a forecast: one model call, whose window is the last \<open>l\<close> rows of
  the first training matrix in time-major form (all of them when it has fewer), asking
  for the full number of prediction timesteps; the saved matrix is the transposed model
  output, with no prefix. An exception of the model is passed on.
\<close>

theorem C7_unmapped_pair_ids_forecast:
  assumes "ds_name cfg \<in> set [''ODE_Lorenz'', ''PDE_KS'', ''KS_Official'', ''Lorenz_Official'']"
    and "pair_id a \<notin> {2, 4, 8, 9}"
    and "ds_size cfg = int l # x # horizon # rest" "1 \<le> l"
    and "train_mats c a = tm # tms"
  shows "main_tail fuel c cfg a =
           (case forecast_model c a (Mat (nrows tm) (drop (ncols tm - l) (rows (transpose_mat tm))))
                   (prediction_timesteps c a) of
              Inl e \<Rightarrow> Some (Inl e)
            | Inr output_mat \<Rightarrow>
                Some (Inr \<lparr>model_calls =
                             [(Mat (nrows tm) (drop (ncols tm - l) (rows (transpose_mat tm))),
                               prediction_timesteps c a)],
                           tmp_pred_made = True,
                           saved = Some (batch_id a, transpose_mat output_mat)\<rparr>))"
proof -
  have seed: "rows_from (transpose_mat tm) (- int l) =
              Mat (nrows tm) (drop (ncols tm - l) (rows (transpose_mat tm)))"
    using rows_from_last [OF assms(4), of "transpose_mat tm"] by simp
  show ?thesis
    using assms(1,2,3,5)
    by (simp add: main_tail_def select_and_run_def py_get_def forecast_def seed
             split: sum.splits)
qed

text \<open>Pair id 1 on the example: one call on the last 3 timesteps, for 5 timesteps.\<close>

theorem C7_witness:
  "main_tail 0 example_collaborators example_config (example_args 1) =
     Some (Inr \<lparr>model_calls = [(Mat 2 [[7, 8], [9, 10], [11, 12]], 5)],
                tmp_pred_made = True,
                saved = Some (0, Mat 5 [[7, 7, 7, 7, 7], [7, 7, 7, 7, 7]])\<rparr>)"
proof -
  have n: "ds_name example_config \<in> set [''ODE_Lorenz'', ''PDE_KS'', ''KS_Official'', ''Lorenz_Official'']"
    by (simp add: example_config_def)
  have p: "pair_id (example_args 1) \<notin> {2, 4, 8, 9}" by (simp add: example_args_def)
  have s: "ds_size example_config = int 3 # 0 # 2 # []" by (simp add: example_config_def)
  have t: "train_mats example_collaborators (example_args 1) = example_train # []"
    by (simp add: train_mats_def example_collaborators_def example_args_def)
  have l: "(1::nat) \<le> 3" by simp
  have v: "(case forecast_model example_collaborators (example_args 1)
                  (Mat (nrows example_train) (drop (ncols example_train - 3) (rows (transpose_mat example_train))))
                   (prediction_timesteps example_collaborators (example_args 1)) of
              Inl e \<Rightarrow> Some (Inl e)
            | Inr output_mat \<Rightarrow>
                Some (Inr \<lparr>model_calls =
                             [(Mat (nrows example_train) (drop (ncols example_train - 3) (rows (transpose_mat example_train))),
                               prediction_timesteps example_collaborators (example_args 1))],
                           tmp_pred_made = True,
                           saved = Some (batch_id (example_args 1), transpose_mat output_mat)\<rparr>))
           = Some (Inr \<lparr>model_calls = [(Mat 2 [[7, 8], [9, 10], [11, 12]], 5)],
                tmp_pred_made = True,
                saved = Some (0, Mat 5 [[7, 7, 7, 7, 7], [7, 7, 7, 7, 7]])\<rparr>)"
    by code_simp
  show ?thesis
    using C7_unmapped_pair_ids_forecast [OF n p s l t, of 0] unfolding v .
qed

subsection \<open>C8: the shape of the saved matrix\<close>

text \<open>
  C8, as amended. The saved matrix is channel-major: its number of columns is the
  number of prediction timesteps, and its number of rows is the number of channels of
  the loaded matrix. This holds in each mode, for a lag of at least 2, a horizon of at
  least 1, at least 2 channels, a loaded history of at least \<open>l\<close> timesteps, a model that
  answers every window, and, for pair ids 8 and 9, at least \<open>l\<close> prediction timesteps.
\<close>

theorem C8_saved_matrix_is_channel_major:
  assumes ds: "ds_name cfg \<in> set [''ODE_Lorenz'', ''PDE_KS'', ''KS_Official'', ''Lorenz_Official'']"
    and size: "ds_size cfg = int l # x # int h # rest" and l: "2 \<le> l" and h: "1 \<le> h"
    and src: "history_source c a = Some src" "2 \<le> nrows src" "l \<le> ncols src"
    and fm: "model_total (forecast_model c a) (nrows src)"
    and ic: "pair_id a \<in> {8, 9} \<longrightarrow> int l \<le> prediction_timesteps c a"
    and fuel: "recon_calls l h (nat (prediction_timesteps c a)) \<le> fuel"
  shows "saved_shape (main_tail fuel c cfg a) = Some (nrows src, nat (prediction_timesteps c a))"
proof (cases "pair_id a \<in> {2, 4}")
  case True
  define P where "P = nat (prediction_timesteps c a)"
  have P: "prediction_timesteps c a = int P" unfolding P_def by (rule prediction_timesteps_nat)
  from True src(1) obtain tms where tm: "train_mats c a = src # tms"
    by (auto simp: history_source_def split: list.splits)
  have h0: "0 < h" using h by simp
  have ld: "l \<le> nrows (transpose_mat src)" using src(3) by simp
  have cd: "2 \<le> ncols (transpose_mat src)" using src(2) by simp
  have ok: "steps_ok (forecast_model c a) (transpose_mat src) l h P"
    by (rule steps_ok_total) (simp add: fm)
  from reconstruct_run [OF h0 l ld cd ok fuel [folded P_def]]
  obtain acc where acc:
    "reconstruct fuel (forecast_model c a) (transpose_mat src) (int l) (int h) (int P) =
       Some (Inr (cols_slice acc 0 (int P),
                  map (\<lambda>i. (window (transpose_mat src) l h i, int h)) [0..<recon_calls l h P]))"
    "nrows acc = ncols (transpose_mat src)" "ncols acc = l + recon_calls l h P * h"
    by blast
  have "P \<le> ncols acc" using recon_calls_covers [OF h0, of P l] acc(3) by simp
  then have "ncols (cols_slice acc 0 (int P)) = P" "nrows (cols_slice acc 0 (int P)) = nrows src"
    using acc(2) by (simp_all add: cols_slice_0 nrows_def)
  then show ?thesis
    using main_tail_recon [OF ds size True tm, of fuel] acc(1)
    by (simp add: P saved_shape_def flip: P_def)
next
  case False
  define n where "n = (if pair_id a \<in> {8, 9} then prediction_timesteps c a - int l
                       else prediction_timesteps c a)"
  have n0: "0 \<le> n" using ic by (simp add: n_def prediction_timesteps_def)
  have l1: "1 \<le> l" using l by simp
  have ld: "l \<le> nrows (transpose_mat src)" using src(3) by simp
  have fm': "model_total (forecast_model c a) (ncols (transpose_mat src))" using fm by simp
  from forecast_run [OF l1 ld n0 fm', of "seed_cast c" "output_cast c" "pair_id a"]
  obtain m where m:
    "forecast (forecast_model c a) (seed_cast c) (output_cast c) (transpose_mat src) (int l) n (pair_id a) =
       Inr (m, [(Mat (ncols (transpose_mat src))
                   (drop (nrows (transpose_mat src) - l) (rows (transpose_mat src))), n)])"
    "ncols m = ncols (transpose_mat src)"
    "nrows m = (if pair_id a \<in> {8, 9} then l + nat n else nat n)"
    by blast
  have "nrows m = nat (prediction_timesteps c a)"
    using m(3) ic by (auto simp: n_def)
  moreover have "main_tail fuel c cfg a =
      Some (Inr \<lparr>model_calls = [(Mat (ncols (transpose_mat src))
                   (drop (nrows (transpose_mat src) - l) (rows (transpose_mat src))), n)],
                 tmp_pred_made = True, saved = Some (batch_id a, transpose_mat m)\<rparr>)"
    unfolding main_tail_forecast [OF ds size False src(1), of fuel, folded n_def] m(1) by simp
  ultimately show ?thesis
    using m(2) by (simp add: saved_shape_def)
qed

text \<open>Pair id 8 on the example: 2 rows and 5 columns.\<close>

theorem C8_witness:
  "saved_shape (main_tail 1 example_collaborators example_config (example_args 8))
     = Some (nrows example_init, nat (prediction_timesteps example_collaborators (example_args 8)))"
proof -
  have n: "ds_name example_config \<in> set [''ODE_Lorenz'', ''PDE_KS'', ''KS_Official'', ''Lorenz_Official'']"
    by (simp add: example_config_def)
  have s: "ds_size example_config = int 3 # 0 # int 2 # []" by (simp add: example_config_def)
  have a: "(2::nat) \<le> 3" "(1::nat) \<le> 2" by simp_all
  have src: "history_source example_collaborators (example_args 8) = Some example_init"
    by (simp add: history_source_def init_mat_def example_collaborators_def example_args_def)
  have d: "2 \<le> nrows example_init" "3 \<le> ncols example_init"
    by (simp_all add: example_init_def nrows_def)
  have m: "model_total (forecast_model example_collaborators (example_args 8)) (nrows example_init)"
    by (simp add: model_total_def example_collaborators_def example_model_def nrows_def example_init_def)
  have p: "pair_id (example_args 8) \<in> {8, 9} \<longrightarrow>
             int 3 \<le> prediction_timesteps example_collaborators (example_args 8)"
    by (simp add: prediction_timesteps_def example_collaborators_def example_args_def)
  have f: "recon_calls 3 2 (nat (prediction_timesteps example_collaborators (example_args 8))) \<le> 1"
    by (simp add: recon_calls_def prediction_timesteps_def example_collaborators_def example_args_def)
  show ?thesis by (rule C8_saved_matrix_is_channel_major [OF n s a src d m p f])
qed

text \<open>
  C8 as stated fails: for pair id 1 the saved matrix has 2 rows, one per channel, and the
  required number of timesteps is 5.
\<close>

theorem C8_counterexample:
  "saved_shape (main_tail 1 example_collaborators example_config (example_args 1)) = Some (2, 5)
   \<and> prediction_timesteps example_collaborators (example_args 1) = 5"
  by code_simp

subsection \<open>C9: lag and horizon come from the dataset size\<close>

text \<open>
  C9, as amended. With \<open>size[0] = l \<ge> 1\<close> and \<open>size[2] = h\<close>:
  \<^item> the model's configured lag and horizon (\<^verbatim>\<open>args.lag\<close>, \<^verbatim>\<open>args.horizon\<close>) reach the
    run only inside the configuration that is handed to the model: a run with other
    values is the run of a model that sees those values, all else unchanged;
  \<^item> in a reconstruction the model is consulted only at the windows of \<open>l\<close> rows that
    begin at the rows \<open>i * h\<close> of the training history, asked for \<open>h\<close> timesteps: two
    models that agree there give the same run, and the calls of a run that returns are
    these windows;
  \<^item> in a forecast the one call is on the last \<open>l\<close> timesteps of the loaded history,
    and for pair ids 8 and 9 the request is the prediction timesteps less \<open>l\<close> and the
    prefix of the saved matrix is that seed window;
  \<^item> a window has \<open>l\<close> rows when the history covers it and fewer otherwise:
    \<open>min l (T - i * h)\<close> rows in a reconstruction, \<open>min l T\<close> rows for the seed of a
    forecast, for a history of \<open>T\<close> timesteps.
\<close>

theorem C9_lag_and_horizon_from_dataset_size:
  assumes ds: "ds_name cfg \<in> set [''ODE_Lorenz'', ''PDE_KS'', ''KS_Official'', ''Lorenz_Official'']"
    and size: "ds_size cfg = int l # x # int h # rest" and l: "1 \<le> l"
  shows
   "main_tail fuel c cfg (a\<lparr>args_lag := al, args_horizon := ah\<rparr>) =
      main_tail fuel
        (c\<lparr>forecast_model := \<lambda>_. forecast_model c (a\<lparr>args_lag := al, args_horizon := ah\<rparr>)\<rparr>)
        cfg a
    \<and> (pair_id a \<in> {2, 4} \<and> train_mats c a = tm # tms
         \<and> (\<forall>i<fuel. forecast_model c a
                        (Mat (nrows tm) (take l (drop (i * h) (rows (transpose_mat tm))))) (int h)
                      = fm' (Mat (nrows tm) (take l (drop (i * h) (rows (transpose_mat tm))))) (int h))
        \<longrightarrow> main_tail fuel c cfg a = main_tail fuel (c\<lparr>forecast_model := \<lambda>_. fm'\<rparr>) cfg a)
    \<and> (pair_id a \<in> {2, 4} \<and> train_mats c a = tm # tms \<and> main_tail fuel c cfg a = Some (Inr eff)
        \<longrightarrow> model_calls eff =
              map (\<lambda>i. (Mat (nrows tm) (take l (drop (i * h) (rows (transpose_mat tm)))), int h))
                [0..<length (model_calls eff)])
    \<and> (pair_id a \<notin> {2, 4} \<and> history_source c a = Some src
        \<longrightarrow> main_tail fuel c cfg a =
             (case forecast_model c a (Mat (nrows src) (drop (ncols src - l) (rows (transpose_mat src))))
                     (if pair_id a \<in> {8, 9} then prediction_timesteps c a - int l
                      else prediction_timesteps c a) of
                Inl e \<Rightarrow> Some (Inl e)
              | Inr out \<Rightarrow>
                  if pair_id a \<in> {8, 9} then
                    (if nrows src = ncols out
                     then Some (Inr \<lparr>model_calls =
                                       [(Mat (nrows src) (drop (ncols src - l) (rows (transpose_mat src))),
                                         prediction_timesteps c a - int l)],
                                     tmp_pred_made = True,
                                     saved = Some (batch_id a,
                                       transpose_mat (Mat (nrows src)
                                         (map (map (seed_cast c))
                                            (drop (ncols src - l) (rows (transpose_mat src)))
                                          @ map (map (output_cast c)) (rows out))))\<rparr>)
                     else Some (Inl RuntimeError))
                  else Some (Inr \<lparr>model_calls =
                                     [(Mat (nrows src) (drop (ncols src - l) (rows (transpose_mat src))),
                                       prediction_timesteps c a)],
                                   tmp_pred_made = True,
                                   saved = Some (batch_id a, transpose_mat out)\<rparr>)))
    \<and> nrows (Mat (nrows tm) (take l (drop (i * h) (rows (transpose_mat tm))))) = min l (ncols tm - i * h)
    \<and> nrows (Mat (nrows src) (drop (ncols src - l) (rows (transpose_mat src)))) = min l (ncols src)"
proof (intro conjI impI)
  let ?a = "a\<lparr>args_lag := al, args_horizon := ah\<rparr>"
  let ?c = "c\<lparr>forecast_model := \<lambda>_. forecast_model c ?a\<rparr>"
  have "train_mats c ?a = train_mats ?c a" "init_mat c ?a = init_mat ?c a"
       "prediction_timesteps c ?a = prediction_timesteps ?c a"
       "pair_id ?a = pair_id a" "batch_id ?a = batch_id a"
       "forecast_model c ?a = forecast_model ?c a"
       "seed_cast c = seed_cast ?c" "output_cast c = output_cast ?c"
    by (simp_all add: train_mats_def init_mat_def prediction_timesteps_def)
  then show "main_tail fuel c cfg ?a = main_tail fuel ?c cfg a"
    unfolding main_tail_def select_and_run_def by (simp only:)
next
  assume A: "pair_id a \<in> {2, 4} \<and> train_mats c a = tm # tms
         \<and> (\<forall>i<fuel. forecast_model c a
                        (Mat (nrows tm) (take l (drop (i * h) (rows (transpose_mat tm))))) (int h)
                      = fm' (Mat (nrows tm) (take l (drop (i * h) (rows (transpose_mat tm))))) (int h))"
  let ?c = "c\<lparr>forecast_model := \<lambda>_. fm'\<rparr>"
  have "train_mats ?c a = train_mats c a" by (simp add: train_mats_def)
  then have tm': "train_mats ?c a = tm # tms" using A by simp
  have P: "prediction_timesteps ?c a = prediction_timesteps c a"
    by (simp add: prediction_timesteps_def)
  have "reconstruct fuel (forecast_model c a) (transpose_mat tm) (int l) (int h) (prediction_timesteps c a)
        = reconstruct fuel fm' (transpose_mat tm) (int l) (int h) (prediction_timesteps c a)"
    using A by (intro reconstruct_cong) (simp add: window_eq)
  then show "main_tail fuel c cfg a = main_tail fuel ?c cfg a"
    unfolding main_tail_recon [OF ds size conjunct1 [OF A] conjunct1 [OF conjunct2 [OF A]]]
              main_tail_recon [OF ds size conjunct1 [OF A] tm'] P
    by simp
next
  assume A: "pair_id a \<in> {2, 4} \<and> train_mats c a = tm # tms \<and> main_tail fuel c cfg a = Some (Inr eff)"
  then have run: "main_tail fuel c cfg a = Some (Inr eff)" by simp
  from run [unfolded main_tail_recon [OF ds size conjunct1 [OF A] conjunct1 [OF conjunct2 [OF A]]]]
  obtain out where rec:
    "reconstruct fuel (forecast_model c a) (transpose_mat tm) (int l) (int h) (prediction_timesteps c a)
       = Some (Inr (out, model_calls eff))"
    by (auto split: option.splits sum.splits prod.splits)
  from reconstruct_calls [OF rec] obtain k where
    "model_calls eff = map (\<lambda>i. (rows_slice (transpose_mat tm) (int i * int h) (int i * int h + int l), int h)) [0..<k]"
    by blast
  then show "model_calls eff =
              map (\<lambda>i. (Mat (nrows tm) (take l (drop (i * h) (rows (transpose_mat tm)))), int h))
                [0..<length (model_calls eff)]"
    using window_eq [of "transpose_mat tm" l h] by (simp add: window_def)
next
  assume A: "pair_id a \<notin> {2, 4} \<and> history_source c a = Some src"
  show "main_tail fuel c cfg a =
             (case forecast_model c a (Mat (nrows src) (drop (ncols src - l) (rows (transpose_mat src))))
                     (if pair_id a \<in> {8, 9} then prediction_timesteps c a - int l
                      else prediction_timesteps c a) of
                Inl e \<Rightarrow> Some (Inl e)
              | Inr out \<Rightarrow>
                  if pair_id a \<in> {8, 9} then
                    (if nrows src = ncols out
                     then Some (Inr \<lparr>model_calls =
                                       [(Mat (nrows src) (drop (ncols src - l) (rows (transpose_mat src))),
                                         prediction_timesteps c a - int l)],
                                     tmp_pred_made = True,
                                     saved = Some (batch_id a,
                                       transpose_mat (Mat (nrows src)
                                         (map (map (seed_cast c))
                                            (drop (ncols src - l) (rows (transpose_mat src)))
                                          @ map (map (output_cast c)) (rows out))))\<rparr>)
                     else Some (Inl RuntimeError))
                  else Some (Inr \<lparr>model_calls =
                                     [(Mat (nrows src) (drop (ncols src - l) (rows (transpose_mat src))),
                                       prediction_timesteps c a)],
                                   tmp_pred_made = True,
                                   saved = Some (batch_id a, transpose_mat out)\<rparr>))"
    unfolding main_tail_forecast [OF ds size conjunct1 [OF A] conjunct2 [OF A]]
    by (simp add: forecast_def cat0_def rows_from_last [OF l, of "transpose_mat src"]
          split: sum.splits)
next
  show "nrows (Mat (nrows tm) (take l (drop (i * h) (rows (transpose_mat tm))))) = min l (ncols tm - i * h)"
    by (simp add: nrows_def transpose_mat_def)
next
  show "nrows (Mat (nrows src) (drop (ncols src - l) (rows (transpose_mat src)))) = min l (ncols src)"
    by (simp add: nrows_def transpose_mat_def min_def)
qed

text \<open>
  On the example (\<open>size[0] = 3\<close>, \<open>size[2] = 2\<close>, configured lag 5 and horizon 4): the
  configured values changed to 100 and 200 for pair id 8; the strict model in place of
  the example model for pair id 2; the calls of pair id 2; and the run of pair id 8.
\<close>

theorem C9_witness:
  "main_tail 1 example_collaborators example_config ((example_args 8)\<lparr>args_lag := 100, args_horizon := 200\<rparr>)
     = main_tail 1
         (example_collaborators\<lparr>forecast_model :=
            \<lambda>_. forecast_model example_collaborators ((example_args 8)\<lparr>args_lag := 100, args_horizon := 200\<rparr>)\<rparr>)
         example_config (example_args 8)
   \<and> main_tail 2 example_collaborators example_config (example_args 2)
       = main_tail 2 (example_collaborators\<lparr>forecast_model := \<lambda>_. strict_model\<rparr>) example_config (example_args 2)
   \<and> main_tail 2 example_collaborators example_config (example_args 2)
       = Some (Inr \<lparr>model_calls = [(Mat 2 [[1, 2], [3, 4], [5, 6]], 2)], tmp_pred_made = True,
                    saved = Some (0, Mat 5 [[1, 3, 5, 7, 7], [2, 4, 6, 7, 7]])\<rparr>)
   \<and> main_tail 1 example_collaborators example_config (example_args 8)
       = Some (Inr \<lparr>model_calls = [(Mat 2 [[21, 22], [23, 24], [25, 26]], 2)], tmp_pred_made = True,
                    saved = Some (0, Mat 5 [[21, 23, 25, 7, 7], [22, 24, 26, 7, 7]])\<rparr>)"
proof -
  have n: "ds_name example_config \<in> set [''ODE_Lorenz'', ''PDE_KS'', ''KS_Official'', ''Lorenz_Official'']"
    by (simp add: example_config_def)
  have s: "ds_size example_config = int 3 # 0 # int 2 # []" by (simp add: example_config_def)
  have l: "(1::nat) \<le> 3" by simp
  note t8 = C9_lag_and_horizon_from_dataset_size [OF n s l, where fuel = 1
      and c = example_collaborators and a = "example_args 8" and al = 100 and ah = 200
      and src = example_init]
  note t2 = C9_lag_and_horizon_from_dataset_size [OF n s l, where fuel = 2
      and c = example_collaborators and a = "example_args 2" and fm' = strict_model
      and tm = example_train and tms = "[]"]
  have p2: "pair_id (example_args 2) \<in> {2, 4}" by (simp add: example_args_def)
  have tr: "train_mats example_collaborators (example_args 2) = example_train # []"
    by (simp add: train_mats_def example_collaborators_def example_args_def)
  have ag: "\<forall>i<2. forecast_model example_collaborators (example_args 2)
                     (Mat (nrows example_train) (take 3 (drop (i * 2) (rows (transpose_mat example_train))))) (int 2)
                 = strict_model
                     (Mat (nrows example_train) (take 3 (drop (i * 2) (rows (transpose_mat example_train))))) (int 2)"
    by (auto simp: strict_model_def example_collaborators_def example_train_def transpose_mat_def
          nrows_def less_Suc_eq numeral_2_eq_2 upt_conv_Cons)
  have r2: "main_tail 2 example_collaborators example_config (example_args 2)
       = Some (Inr \<lparr>model_calls = [(Mat 2 [[1, 2], [3, 4], [5, 6]], 2)], tmp_pred_made = True,
                    saved = Some (0, Mat 5 [[1, 3, 5, 7, 7], [2, 4, 6, 7, 7]])\<rparr>)"
    by code_simp
  have r8: "main_tail 1 example_collaborators example_config (example_args 8)
       = Some (Inr \<lparr>model_calls = [(Mat 2 [[21, 22], [23, 24], [25, 26]], 2)], tmp_pred_made = True,
                    saved = Some (0, Mat 5 [[21, 23, 25, 7, 7], [22, 24, 26, 7, 7]])\<rparr>)"
    by code_simp
  from t8 have c1: "main_tail 1 example_collaborators example_config ((example_args 8)\<lparr>args_lag := 100, args_horizon := 200\<rparr>)
     = main_tail 1
         (example_collaborators\<lparr>forecast_model :=
            \<lambda>_. forecast_model example_collaborators ((example_args 8)\<lparr>args_lag := 100, args_horizon := 200\<rparr>)\<rparr>)
         example_config (example_args 8)"
    by blast
  from t2 p2 tr ag have c2: "main_tail 2 example_collaborators example_config (example_args 2)
       = main_tail 2 (example_collaborators\<lparr>forecast_model := \<lambda>_. strict_model\<rparr>) example_config (example_args 2)"
    by blast
  from c1 c2 r2 r8 show ?thesis by blast
qed

text \<open>
  C9 as stated fails when the history is shorter than \<open>size[0]\<close>: with \<open>size[0] = 4\<close> and
  an initial-condition matrix of three timesteps, the seed window of pair id 8 and the
  prefix it leaves in the saved matrix have 3 rows, not 4.
\<close>

theorem C9_counterexample:
  "py_get (ds_size long_lag_config) 0 = Inr 4
   \<and> main_tail 0 example_collaborators long_lag_config (example_args 8)
       = Some (Inr \<lparr>model_calls = [(Mat 2 [[21, 22], [23, 24], [25, 26]], 1)], tmp_pred_made = True,
                    saved = Some (0, Mat 4 [[21, 23, 25, 7], [22, 24, 26, 7]])\<rparr>)
   \<and> nrows (Mat 2 [[21, 22], [23, 24], [25, 26 :: int]]) \<noteq> 4"
  by code_simp

subsection \<open>C10: other datasets\<close>

text \<open>
  C10. When the dataset name is none of the four rollout datasets, the part of
  \<^verbatim>\<open>main\<close> after training calls the model not once, makes no directory and saves no
  file, for every pair id, validation setting and amount of fuel.
\<close>

theorem C10_no_rollout_for_other_datasets:
  assumes "ds_name cfg \<notin> set [''ODE_Lorenz'', ''PDE_KS'', ''KS_Official'', ''Lorenz_Official'']"
  shows "main_tail fuel c cfg a = Some (Inr \<lparr>model_calls = [], tmp_pred_made = False, saved = None\<rparr>)"
  using assms by (simp add: main_tail_def)

text \<open>The dataset \<open>ETTh1\<close>.\<close>

theorem C10_witness:
  "main_tail 3 example_collaborators other_config (example_args 8) =
     Some (Inr \<lparr>model_calls = [], tmp_pred_made = False, saved = None\<rparr>)"
  by (rule C10_no_rollout_for_other_datasets) (simp add: other_config_def)

end
